theory Spec2Isabelle
  imports Complex_Main
begin

section \<open>Values read from the configuration\<close>

text \<open>
  The rule map comes out of \<^verbatim>\<open>json.loads\<close>, so a rule value is a JSON value as Python
  holds it: \<^verbatim>\<open>None\<close>, a \<^verbatim>\<open>bool\<close>, an unbounded \<^verbatim>\<open>int\<close>, a \<^verbatim>\<open>float\<close>, a \<^verbatim>\<open>str\<close>,
  a \<^verbatim>\<open>list\<close> or a \<^verbatim>\<open>dict\<close> with string keys in insertion order. A float is kept as
  the rational it denotes or as one of the three special values that \<^verbatim>\<open>json.loads\<close>
  accepts; the code only ever compares it with \<^verbatim>\<open>0\<close> and \<^verbatim>\<open>2\<close>.
\<close>

datatype pyfloat = PyFloat rat | PyInf | PyNegInf | PyNaN

datatype json =
    JNull
  | JBool bool
  | JInt int
  | JFloat pyfloat
  | JStr string
  | JList "json list"
  | JDict "(string \<times> json) list"

text \<open>\<^verbatim>\<open>isinstance(v, (int, float))\<close>: in Python \<^verbatim>\<open>bool\<close> is a subclass of \<^verbatim>\<open>int\<close>.\<close>

fun is_number :: "json \<Rightarrow> bool" where
  "is_number (JInt _) = True"
| "is_number (JFloat _) = True"
| "is_number (JBool _) = True"
| "is_number _ = False"

text \<open>\<^verbatim>\<open>v == n\<close> for an integer literal \<^verbatim>\<open>n\<close>; \<^verbatim>\<open>True == 1\<close> and \<^verbatim>\<open>2.0 == 2\<close> hold.\<close>

fun py_eq_int :: "json \<Rightarrow> int \<Rightarrow> bool" where
  "py_eq_int (JInt i) n = (i = n)"
| "py_eq_int (JBool b) n = ((if b then 1 else 0) = n)"
| "py_eq_int (JFloat (PyFloat r)) n = (r = of_int n)"
| "py_eq_int _ n = False"

text \<open>\<^verbatim>\<open>v == s\<close> for a string literal \<^verbatim>\<open>s\<close>.\<close>

fun py_eq_str :: "json \<Rightarrow> string \<Rightarrow> bool" where
  "py_eq_str (JStr t) s = (t = s)"
| "py_eq_str _ s = False"

text \<open>Truth value of a JSON value, as \<^verbatim>\<open>if v:\<close> tests it.\<close>

fun py_truthy :: "json \<Rightarrow> bool" where
  "py_truthy JNull = False"
| "py_truthy (JBool b) = b"
| "py_truthy (JInt i) = (i \<noteq> 0)"
| "py_truthy (JFloat f) = (f \<noteq> PyFloat 0)"
| "py_truthy (JStr s) = (s \<noteq> [])"
| "py_truthy (JList xs) = (xs \<noteq> [])"
| "py_truthy (JDict kvs) = (kvs \<noteq> [])"

fun is_dict :: "json \<Rightarrow> bool" where
  "is_dict (JDict _) = True"
| "is_dict _ = False"

text \<open>
  The two library functions the translator calls on parameter values. \<^verbatim>\<open>json.dumps\<close> and
  the \<^verbatim>\<open>repr\<close> of a float are not part of the repository; they are parameters of the
  model. \<^verbatim>\<open>str\<close> of the other scalars is written out.
\<close>

record pylib =
  json_dumps :: "json \<Rightarrow> string"
  float_repr :: "pyfloat \<Rightarrow> string"

definition digit_char :: "nat \<Rightarrow> char" where
  "digit_char d = char_of (48 + d)"

function str_of_nat :: "nat \<Rightarrow> string" where
  "str_of_nat n = (if n < 10 then [digit_char n] else str_of_nat (n div 10) @ [digit_char (n mod 10)])"
  by pat_completeness auto
termination
  by (relation "measure id") auto

declare str_of_nat.simps [simp del]

definition str_of_int :: "int \<Rightarrow> string" where
  "str_of_int i = (if i < 0 then CHR ''-'' # str_of_nat (nat (- i)) else str_of_nat (nat i))"

text \<open>\<^verbatim>\<open>str(v)\<close>; a list or a dict has been replaced by its \<^verbatim>\<open>json.dumps\<close> text before.\<close>

fun py_str :: "pylib \<Rightarrow> json \<Rightarrow> string" where
  "py_str L JNull = ''None''"
| "py_str L (JBool b) = (if b then ''True'' else ''False'')"
| "py_str L (JInt i) = str_of_int i"
| "py_str L (JFloat f) = float_repr L f"
| "py_str L (JStr s) = s"
| "py_str L v = json_dumps L v"

section \<open>Rule Translator: \<^verbatim>\<open>map_eslint_rule_to_codacy\<close>\<close>

record mapped_param =
  param_name :: string
  param_value :: string

text \<open>
  The pattern dictionary the translator returns: the keys \<^verbatim>\<open>id\<close>, \<^verbatim>\<open>enabled\<close> and
  \<^verbatim>\<open>patternId\<close> are always there, the key \<^verbatim>\<open>parameters\<close> only when it was assigned.
\<close>

record translated_pattern =
  pat_id :: string
  pat_enabled :: bool
  pat_patternId :: string
  pat_parameters :: "mapped_param list option"

text \<open>Lines 378 to 385: one name/value pair for every item of the parameter mapping.\<close>

definition map_param :: "pylib \<Rightarrow> string \<times> json \<Rightarrow> mapped_param" where
  "map_param L kv = \<lparr>param_name = fst kv, param_value = py_str L (snd kv)\<rparr>"

text \<open>
  Lines 350 to 361: severity and parameter payload of the rule value. \<^verbatim>\<open>rule_config[0]\<close>
  of an empty list raises \<^verbatim>\<open>IndexError\<close>, which the function's \<^verbatim>\<open>except\<close> turns into
  \<^verbatim>\<open>None\<close>; a value of any other type takes the last \<^verbatim>\<open>else\<close> and returns \<^verbatim>\<open>None\<close> too.
  An absent payload is Python's \<^verbatim>\<open>None\<close>, here \<open>JNull\<close>.
\<close>

fun split_rule_config :: "json \<Rightarrow> (json \<times> json) option" where
  "split_rule_config (JList []) = None"
| "split_rule_config (JList [s]) = Some (s, JNull)"
| "split_rule_config (JList (s # p # _)) = Some (s, p)"
| "split_rule_config (JStr s) = Some (JStr s, JNull)"
| "split_rule_config (JDict kvs) = Some (JStr ''error'', JDict kvs)"
| "split_rule_config _ = None"

text \<open>Lines 363 and 364: a numeric severity becomes a symbolic one.\<close>

definition symbolic_severity :: "json \<Rightarrow> json" where
  "symbolic_severity severity =
     (if is_number severity then JStr (if py_eq_int severity 2 then ''error'' else ''warn'')
      else severity)"

text \<open>Line 365: \<^verbatim>\<open>severity in ['error', 'warn', 2, 1]\<close>.\<close>

definition severity_enabled :: "json \<Rightarrow> bool" where
  "severity_enabled severity =
     (py_eq_str severity ''error'' \<or> py_eq_str severity ''warn''
      \<or> py_eq_int severity 2 \<or> py_eq_int severity 1)"

text \<open>Lines 370 to 390: the pattern and its optional \<^verbatim>\<open>parameters\<close> key.\<close>

definition build_pattern :: "pylib \<Rightarrow> string \<Rightarrow> json \<Rightarrow> translated_pattern" where
  "build_pattern L rule_name parameters =
     (let pattern = \<lparr>pat_id = rule_name, pat_enabled = True, pat_patternId = rule_name,
                      pat_parameters = None\<rparr>
      in if py_truthy parameters \<and> is_dict parameters
         then (case parameters of
                 JDict kvs \<Rightarrow>
                   (let mapped_parameters = map (map_param L) kvs
                    in if mapped_parameters \<noteq> []
                       then pattern\<lparr>pat_parameters := Some mapped_parameters\<rparr>
                       else pattern)
               | _ \<Rightarrow> pattern)
         else pattern)"

definition map_eslint_rule_to_codacy :: "pylib \<Rightarrow> string \<Rightarrow> json \<Rightarrow> translated_pattern option" where
  "map_eslint_rule_to_codacy L rule_name rule_config =
     (if is_number rule_config \<and> py_eq_int rule_config 0 then None
      else
        let rule_config' =
              (if is_number rule_config
               then JList [JStr (if py_eq_int rule_config 2 then ''error'' else ''warn'')]
               else rule_config)
        in case split_rule_config rule_config' of
             None \<Rightarrow> None
           | Some (severity, parameters) \<Rightarrow>
               if severity_enabled (symbolic_severity severity)
               then Some (build_pattern L rule_name parameters)
               else None)"

section \<open>Strings\<close>

text \<open>\<^verbatim>\<open>s.startswith(pre)\<close>.\<close>

definition startswith :: "string \<Rightarrow> string \<Rightarrow> bool" where
  "startswith s pre = (take (length pre) s = pre)"

text \<open>
  \<^verbatim>\<open>s.replace(old, new)\<close>: every occurrence of \<open>old\<close>, found from left to right without
  overlap, becomes \<open>new\<close>. With an empty \<open>old\<close> Python puts \<open>new\<close> before every
  character and at the end.
\<close>

function py_replace :: "string \<Rightarrow> string \<Rightarrow> string \<Rightarrow> string" where
  "py_replace old new s =
     (if old = [] then new @ concat (map (\<lambda>c. c # new) s)
      else if s = [] then []
      else if startswith s old then new @ py_replace old new (drop (length old) s)
      else hd s # py_replace old new (tl s))"
  by pat_completeness auto
termination
  by (relation "measure (\<lambda>(old, new, s). length s)") auto

declare py_replace.simps [simp del]

section \<open>Pattern Catalog Reconciler\<close>

text \<open>
  A catalog pattern as the listing returns it: a dictionary that may have the key
  \<^verbatim>\<open>patternDefinition\<close>, whose value may have the key \<^verbatim>\<open>id\<close>. The rest of a definition is
  opaque to the code and is the type parameter \<open>'d\<close>.
\<close>

record 'd pattern_definition =
  def_id :: "string option"
  def_body :: 'd

record 'd catalog_pattern =
  patternDefinition :: "'d pattern_definition option"

text \<open>
  The test \<^verbatim>\<open>'patternDefinition' in pattern and 'id' in pattern['patternDefinition']\<close>
  and the identifier it guards.
\<close>

definition catalog_id :: "'d catalog_pattern \<Rightarrow> string option" where
  "catalog_id pattern =
     (case patternDefinition pattern of None \<Rightarrow> None | Some d \<Rightarrow> def_id d)"

text \<open>Line 176: \<^verbatim>\<open>pattern_id[8:] if pattern_id.startswith('ESLint8_') else pattern_id\<close>.\<close>

definition base_id_of :: "string \<Rightarrow> string" where
  "base_id_of pattern_id =
     (if startswith pattern_id ''ESLint8_'' then drop 8 pattern_id else pattern_id)"

text \<open>
  Lines 172 to 180 of \<^verbatim>\<open>update_coding_standard_tool\<close>: the dictionary \<^verbatim>\<open>pattern_mapping\<close>,
  from the prefix-stripped identifier and from its underscore-normalised form to the
  catalog identifier. A later catalog pattern overwrites an earlier one on the same key.
\<close>

definition add_pattern_mapping :: "(string \<rightharpoonup> string) \<Rightarrow> 'd catalog_pattern \<Rightarrow> (string \<rightharpoonup> string)" where
  "add_pattern_mapping m pattern =
     (case catalog_id pattern of
        None \<Rightarrow> m
      | Some pattern_id \<Rightarrow>
          let base_id = base_id_of pattern_id;
              m1 = m(base_id \<mapsto> pattern_id);
              normalized_id = py_replace ''/'' ''_'' base_id
          in m1(normalized_id \<mapsto> pattern_id))"

definition pattern_mapping :: "'d catalog_pattern list \<Rightarrow> (string \<rightharpoonup> string)" where
  "pattern_mapping all_patterns = foldl add_pattern_mapping Map.empty all_patterns"

text \<open>An entry of \<^verbatim>\<open>enabled_patterns\<close> or \<^verbatim>\<open>disabled_patterns\<close>, as it is sent.\<close>

record directive =
  dir_id :: string
  dir_enabled :: bool
  dir_parameters :: "mapped_param list"

text \<open>Lines 187 to 195: the direct lookup, then the one of the normalised name.\<close>

definition find_codacy_id :: "(string \<rightharpoonup> string) \<Rightarrow> string \<Rightarrow> string option" where
  "find_codacy_id m rule_name =
     (let normalized_rule = py_replace ''/'' ''_'' rule_name
      in if m rule_name \<noteq> None then m rule_name
         else if m normalized_rule \<noteq> None then m normalized_rule
         else None)"

text \<open>Lines 198 to 202; \<^verbatim>\<open>pattern.get("parameters", [])\<close> defaults to the empty list.\<close>

definition enable_directive :: "string \<Rightarrow> translated_pattern \<Rightarrow> directive" where
  "enable_directive codacy_id pattern =
     \<lparr>dir_id = codacy_id, dir_enabled = True,
      dir_parameters = (case pat_parameters pattern of None \<Rightarrow> [] | Some ps \<Rightarrow> ps)\<rparr>"

text \<open>Lines 212 to 216.\<close>

definition disable_directive :: "string \<Rightarrow> directive" where
  "disable_directive pattern_id = \<lparr>dir_id = pattern_id, dir_enabled = False, dir_parameters = []\<rparr>"

text \<open>
  Lines 186 to 205: the loop over the configured patterns. \<^verbatim>\<open>if codacy_id:\<close> is false for
  \<^verbatim>\<open>None\<close> and for the empty string; the warning printed then is not modelled.
\<close>

primrec enabled_patterns :: "(string \<rightharpoonup> string) \<Rightarrow> translated_pattern list \<Rightarrow> directive list" where
  "enabled_patterns m [] = []"
| "enabled_patterns m (pattern # patterns) =
     (case find_codacy_id m (pat_id pattern) of
        None \<Rightarrow> []
      | Some codacy_id \<Rightarrow> if codacy_id \<noteq> [] then [enable_directive codacy_id pattern] else [])
     @ enabled_patterns m patterns"

text \<open>Lines 208 to 216: the loop over the catalog.\<close>

primrec disabled_patterns :: "directive list \<Rightarrow> 'd catalog_pattern list \<Rightarrow> directive list" where
  "disabled_patterns enabled [] = []"
| "disabled_patterns enabled (pattern # all_patterns) =
     (case catalog_id pattern of
        None \<Rightarrow> []
      | Some pattern_id \<Rightarrow>
          if \<not> list_ex (\<lambda>ep. dir_id ep = pattern_id) enabled
          then [disable_directive pattern_id] else [])
     @ disabled_patterns enabled all_patterns"

text \<open>Lines 171 to 216, the part of \<^verbatim>\<open>update_coding_standard_tool\<close> that makes no call.\<close>

definition reconcile :: "'d catalog_pattern list \<Rightarrow> translated_pattern list \<Rightarrow> directive list \<times> directive list" where
  "reconcile all_patterns patterns =
     (let enabled = enabled_patterns (pattern_mapping all_patterns) patterns
      in (enabled, disabled_patterns enabled all_patterns))"

text \<open>
  Lines 24 to 36 of \<^verbatim>\<open>map_eslint_to_codacy_patterns\<close>: the dictionary \<^verbatim>\<open>codacy_pattern_map\<close>,
  from the raw identifier and, when it is prefixed, from the stripped identifier to the
  pattern definition.
\<close>

definition add_codacy_pattern_map ::
    "(string \<rightharpoonup> 'd pattern_definition) \<Rightarrow> 'd catalog_pattern \<Rightarrow> (string \<rightharpoonup> 'd pattern_definition)" where
  "add_codacy_pattern_map m pattern =
     (case patternDefinition pattern of
        None \<Rightarrow> m
      | Some d \<Rightarrow>
          (case def_id d of
             None \<Rightarrow> m
           | Some pattern_id \<Rightarrow>
               let m1 = m(pattern_id \<mapsto> d)
               in if startswith pattern_id ''ESLint8_'' then m1(drop 8 pattern_id \<mapsto> d) else m1))"

definition codacy_pattern_map :: "'d catalog_pattern list \<Rightarrow> (string \<rightharpoonup> 'd pattern_definition)" where
  "codacy_pattern_map all_codacy_patterns = foldl add_codacy_pattern_map Map.empty all_codacy_patterns"

text \<open>
  The keys that lines 31 and 35 assign for one catalog pattern: its identifier and, when
  that is prefixed, the stripped identifier.
\<close>

definition pattern_keys :: "'d catalog_pattern \<Rightarrow> string list" where
  "pattern_keys pattern =
     (case patternDefinition pattern of
        None \<Rightarrow> []
      | Some d \<Rightarrow>
          (case def_id d of
             None \<Rightarrow> []
           | Some pattern_id \<Rightarrow>
               pattern_id # (if startswith pattern_id ''ESLint8_'' then [drop 8 pattern_id] else [])))"

text \<open>A catalog pattern that has a definition with an identifier.\<close>

definition catalog_entry :: "string \<Rightarrow> 'd \<Rightarrow> 'd catalog_pattern" where
  "catalog_entry pid body = \<lparr>patternDefinition = Some \<lparr>def_id = Some pid, def_body = body\<rparr>\<rparr>"

section \<open>The remote service\<close>

text \<open>
  The calls to the platform are made through \<^verbatim>\<open>requests\<close>. A call that fails raises: a
  \<^verbatim>\<open>RequestException\<close> (what \<^verbatim>\<open>raise_for_status\<close> and the transport raise), or any other
  exception; \<^verbatim>\<open>batch_update_patterns\<close> catches the first kind only.
\<close>

datatype exn = RequestException string | OtherException string

text \<open>
  What the program does to the outside world, in order: the three kinds of request it
  sends for a coding standard (organisation, provider, token and standard identifier are
  the same in every request of a run and are left out) and \<^verbatim>\<open>time.sleep\<close>. Console output
  is not modelled.
\<close>

datatype event =
    GetTools
  | GetPatterns string "string option"
  | Patch string bool "directive list"
  | Sleep nat

text \<open>
  A page of the pattern listing: the key \<^verbatim>\<open>data\<close> when present, and the cursor that
  \<^verbatim>\<open>data.get('pagination', {}).get('cursor')\<close> reads, \<^verbatim>\<open>None\<close> when either key is absent.
\<close>

record 'd page =
  page_data :: "'d catalog_pattern list option"
  page_cursor :: "string option"

text \<open>
  The service answers a request as a function of everything that happened before it:
  the argument is the trace up to and including the request.
\<close>

record 'd remote =
  tools_response :: "event list \<Rightarrow> exn + string list"
  patterns_response :: "event list \<Rightarrow> exn + 'd page"
  patch_response :: "event list \<Rightarrow> exn option"

definition ESLINT_TOOL_UUID :: string where
  "ESLINT_TOOL_UUID = ''f8b29663-2cb2-498d-b923-a10c6a8c05cd''"

text \<open>\<^verbatim>\<open>if not cursor\<close>: \<^verbatim>\<open>None\<close> and the empty string end the listing.\<close>

fun cursor_truthy :: "string option \<Rightarrow> bool" where
  "cursor_truthy None = False"
| "cursor_truthy (Some c) = (c \<noteq> [])"

section \<open>Batch Synchronizer\<close>

text \<open>
  \<^verbatim>\<open>list_tool_patterns\<close>, lines 77 to 104. The \<^verbatim>\<open>while True\<close> loop runs for as long as
  the service returns cursors, so the model takes fuel: one unit for each request, and
  \<open>None\<close> when it runs out before the service stops returning a cursor.
\<close>

fun list_tool_patterns_loop ::
    "nat \<Rightarrow> 'd remote \<Rightarrow> string \<Rightarrow> string option \<Rightarrow> 'd catalog_pattern list \<Rightarrow> event list
     \<Rightarrow> ((exn + 'd catalog_pattern list) \<times> event list) option" where
  "list_tool_patterns_loop 0 R tool_uuid cursor all_patterns tr = None"
| "list_tool_patterns_loop (Suc fuel) R tool_uuid cursor all_patterns tr =
     (let tr' = tr @ [GetPatterns tool_uuid cursor]
      in case patterns_response R tr' of
           Inl e \<Rightarrow> Some (Inl e, tr')
         | Inr data \<Rightarrow>
             let all_patterns' =
                   (case page_data data of
                      None \<Rightarrow> all_patterns
                    | Some ps \<Rightarrow> all_patterns @ ps);
                 cursor' = page_cursor data
             in if \<not> cursor_truthy cursor' then Some (Inr all_patterns', tr')
                else list_tool_patterns_loop fuel R tool_uuid cursor' all_patterns' tr')"

definition list_tool_patterns ::
    "nat \<Rightarrow> 'd remote \<Rightarrow> string \<Rightarrow> event list
     \<Rightarrow> ((exn + 'd catalog_pattern list) \<times> event list) option" where
  "list_tool_patterns fuel R tool_uuid tr = list_tool_patterns_loop fuel R tool_uuid None [] tr"

text \<open>
  Lines 408 to 419: the retry loop around one update call. The counter starts at 3; a
  \<^verbatim>\<open>RequestException\<close> decrements it, is raised again when it reaches 0 and is followed by
  a sleep of two seconds otherwise. Any other exception is not caught.
\<close>

fun send_batch ::
    "'d remote \<Rightarrow> string \<Rightarrow> directive list \<Rightarrow> nat \<Rightarrow> event list \<Rightarrow> (exn + unit) \<times> event list" where
  "send_batch R tool_uuid batch 0 tr = (Inr (), tr)"
| "send_batch R tool_uuid batch (Suc retries) tr =
     (let tr' = tr @ [Patch tool_uuid True batch]
      in case patch_response R tr' of
           None \<Rightarrow> (Inr (), tr')
         | Some (RequestException msg) \<Rightarrow>
             if retries = 0 then (Inl (RequestException msg), tr')
             else send_batch R tool_uuid batch retries (tr' @ [Sleep 2])
         | Some (OtherException msg) \<Rightarrow> (Inl (OtherException msg), tr'))"

text \<open>
  Lines 397 to 419: \<^verbatim>\<open>for i in range(0, len(patterns), batch_size)\<close> with a positive
  step, and the slice \<^verbatim>\<open>patterns[i:i + batch_size]\<close>.
\<close>

function batch_loop ::
    "'d remote \<Rightarrow> string \<Rightarrow> directive list \<Rightarrow> nat \<Rightarrow> nat \<Rightarrow> event list \<Rightarrow> (exn + unit) \<times> event list" where
  "batch_loop R tool_uuid patterns batch_size i tr =
     (if batch_size = 0 \<or> length patterns \<le> i then (Inr (), tr)
      else
        let batch = take batch_size (drop i patterns)
        in case send_batch R tool_uuid batch 3 tr of
             (Inl e, tr') \<Rightarrow> (Inl e, tr')
           | (Inr u, tr') \<Rightarrow> batch_loop R tool_uuid patterns batch_size (i + batch_size) tr')"
  by pat_completeness auto
termination
  by (relation "measure (\<lambda>(R, tool_uuid, patterns, batch_size, i, tr). length patterns - i)") auto

declare batch_loop.simps [simp del]

text \<open>
  \<^verbatim>\<open>batch_update_patterns\<close> (the second definition, lines 395 to 419, is the one in force;
  the first, lines 107 to 131, has the same body). \<^verbatim>\<open>range\<close> raises \<^verbatim>\<open>ValueError\<close> for a
  step of 0 and is empty for a negative step.
\<close>

definition batch_update_patterns ::
    "'d remote \<Rightarrow> string \<Rightarrow> directive list \<Rightarrow> int \<Rightarrow> event list \<Rightarrow> (exn + unit) \<times> event list" where
  "batch_update_patterns R tool_uuid patterns batch_size tr =
     (if batch_size = 0 then (Inl (OtherException ''ValueError''), tr)
      else if batch_size < 0 then (Inr (), tr)
      else batch_loop R tool_uuid patterns (nat batch_size) 0 tr)"

text \<open>
  One update call with an empty pattern list and \<^verbatim>\<open>raise_for_status\<close>, lines 157 to 164
  and 236 to 243. The decoded response that is returned is never used by a caller.
\<close>

definition patch_tool ::
    "'d remote \<Rightarrow> string \<Rightarrow> bool \<Rightarrow> event list \<Rightarrow> (exn + unit) \<times> event list" where
  "patch_tool R tool_uuid enabled tr =
     (let tr' = tr @ [Patch tool_uuid enabled []]
      in case patch_response R tr' of
           None \<Rightarrow> (Inr (), tr')
         | Some e \<Rightarrow> (Inl e, tr'))"

text \<open>\<^verbatim>\<open>update_coding_standard_tool\<close>, lines 154 to 243.\<close>

definition update_coding_standard_tool ::
    "nat \<Rightarrow> 'd remote \<Rightarrow> string \<Rightarrow> bool \<Rightarrow> translated_pattern list \<Rightarrow> event list
     \<Rightarrow> ((exn + unit) \<times> event list) option" where
  "update_coding_standard_tool fuel R tool_uuid enabled patterns tr =
     (if \<not> enabled then Some (patch_tool R tool_uuid False tr)
      else if tool_uuid = ESLINT_TOOL_UUID then
        (case list_tool_patterns fuel R tool_uuid tr of
           None \<Rightarrow> None
         | Some (Inl e, tr1) \<Rightarrow> Some (Inl e, tr1)
         | Some (Inr all_patterns, tr1) \<Rightarrow>
             (case reconcile all_patterns patterns of
                (enabled_list, disabled_list) \<Rightarrow>
                  (case (if enabled_list \<noteq> []
                         then batch_update_patterns R tool_uuid enabled_list 1000 tr1
                         else (Inr (), tr1)) of
                     (Inl e, tr2) \<Rightarrow> Some (Inl e, tr2)
                   | (Inr u, tr2) \<Rightarrow>
                       Some (if disabled_list \<noteq> []
                             then batch_update_patterns R tool_uuid disabled_list 1000 tr2
                             else (Inr (), tr2)))))
      else Some (patch_tool R tool_uuid enabled tr))"

text \<open>
  Lines 140 to 152 of \<^verbatim>\<open>disable_all_tools\<close>: the retry loop for one tool. Every exception
  is caught; when the counter reaches 0 the error is printed and the loop is left with
  \<^verbatim>\<open>break\<close>, so nothing is raised.
\<close>

fun disable_tool ::
    "nat \<Rightarrow> 'd remote \<Rightarrow> string \<Rightarrow> nat \<Rightarrow> event list \<Rightarrow> event list option" where
  "disable_tool fuel R tool 0 tr = Some tr"
| "disable_tool fuel R tool (Suc retries) tr =
     (case update_coding_standard_tool fuel R tool False [] tr of
        None \<Rightarrow> None
      | Some (Inr u, tr') \<Rightarrow> Some tr'
      | Some (Inl e, tr') \<Rightarrow>
          if retries = 0 then Some tr'
          else disable_tool fuel R tool retries (tr' @ [Sleep 2]))"

text \<open>Line 139: the loop over the tools, given by their \<^verbatim>\<open>uuid\<close>.\<close>

fun disable_loop ::
    "nat \<Rightarrow> 'd remote \<Rightarrow> string list \<Rightarrow> event list \<Rightarrow> event list option" where
  "disable_loop fuel R [] tr = Some tr"
| "disable_loop fuel R (tool # tools) tr =
     (case disable_tool fuel R tool 3 tr of
        None \<Rightarrow> None
      | Some tr' \<Rightarrow> disable_loop fuel R tools tr')"

text \<open>\<^verbatim>\<open>disable_all_tools\<close>; a failure of the tool listing is not caught.\<close>

definition disable_all_tools ::
    "nat \<Rightarrow> 'd remote \<Rightarrow> event list \<Rightarrow> ((exn + unit) \<times> event list) option" where
  "disable_all_tools fuel R tr =
     (let tr' = tr @ [GetTools]
      in case tools_response R tr' of
           Inl e \<Rightarrow> Some (Inl e, tr')
         | Inr tools \<Rightarrow>
             (case disable_loop fuel R tools tr' of
                None \<Rightarrow> None
              | Some tr'' \<Rightarrow> Some (Inr (), tr'')))"

section \<open>Config Text Normalizer\<close>

text \<open>
  The configuration text is a Python \<^verbatim>\<open>str\<close>; a \<open>char\<close> stands for a code point below
  256. \<open>is_space\<close> is the whitespace of \<^verbatim>\<open>\s\<close> and of \<^verbatim>\<open>str.strip()\<close> in that range.
\<close>

definition is_space :: "char \<Rightarrow> bool" where
  "is_space c = (of_char c \<in> {9, 10, 11, 12, 13, 28, 29, 30, 31, 32, 133, 160 :: nat})"

text \<open>The character class \<^verbatim>\<open>[a-zA-Z0-9_-]\<close>.\<close>

definition is_key_char :: "char \<Rightarrow> bool" where
  "is_key_char c =
     (let n = (of_char c :: nat)
      in (97 \<le> n \<and> n \<le> 122) \<or> (65 \<le> n \<and> n \<le> 90) \<or> (48 \<le> n \<and> n \<le> 57)
         \<or> c = CHR ''_'' \<or> c = CHR ''-'')"

text \<open>\<^verbatim>\<open>s.strip()\<close> and \<^verbatim>\<open>s.strip(chars)\<close>: the characters are removed at both ends.\<close>

definition strip_chars :: "(char \<Rightarrow> bool) \<Rightarrow> string \<Rightarrow> string" where
  "strip_chars P s = rev (dropWhile P (rev (dropWhile P s)))"

text \<open>\<^verbatim>\<open>s.split('\n')\<close>; the result has one more element than \<open>s\<close> has newlines.\<close>

fun split_newline :: "string \<Rightarrow> string list" where
  "split_newline [] = [[]]"
| "split_newline (c # cs) =
     (if c = CHR 0x0A then [] # split_newline cs
      else (case split_newline cs of
              l # ls \<Rightarrow> (c # l) # ls
            | [] \<Rightarrow> [[c]]))"

text \<open>\<^verbatim>\<open>sep.join(xs)\<close>.\<close>

fun py_join :: "string \<Rightarrow> string list \<Rightarrow> string" where
  "py_join sep [] = []"
| "py_join sep [x] = x"
| "py_join sep (x # y # ys) = x @ sep @ py_join sep (y # ys)"

text \<open>
  Where a lazy \<^verbatim>\<open>.*?\<close> followed by a literal ends (with \<^verbatim>\<open>re.S\<close>, so that the dot
  matches a newline too): the number of characters up to and including the first
  occurrence of the literal, if there is one.
\<close>

fun find_end :: "string \<Rightarrow> string \<Rightarrow> nat option" where
  "find_end needle [] = (if needle = [] then Some 0 else None)"
| "find_end needle (c # cs) =
     (if startswith (c # cs) needle then Some (length needle)
      else map_option Suc (find_end needle cs))"

text \<open>
  \<^verbatim>\<open>re.sub(pattern, repl, s)\<close> for a pattern that matches no empty string. The matcher
  \<open>m\<close> is given the text from the current position on and returns, when the pattern
  matches there, the length of the match minus one and the text that replaces it. The
  scan goes on behind a match, and one character further where there is none.
\<close>

function re_sub :: "(string \<Rightarrow> (nat \<times> string) option) \<Rightarrow> string \<Rightarrow> string" where
  "re_sub m [] = []"
| "re_sub m (c # cs) =
     (case m (c # cs) of
        Some (n, repl) \<Rightarrow> repl @ re_sub m (drop n cs)
      | None \<Rightarrow> c # re_sub m cs)"
  by pat_completeness auto
termination
  by (relation "measure (\<lambda>(m, s). length s)") auto

text \<open>
  The pieces of the patterns that are sequences: a literal, \<^verbatim>\<open>\s*\<close>, and a character
  class matching one character. In every pattern of the source \<^verbatim>\<open>\s*\<close> is followed by a
  character that is no whitespace, so the greedy match of \<^verbatim>\<open>\s*\<close> is the only one that
  can succeed and no backtracking is needed.
\<close>

datatype piece = Lit string | Spaces | OneOf string

fun match_pieces :: "piece list \<Rightarrow> string \<Rightarrow> nat option" where
  "match_pieces [] s = Some 0"
| "match_pieces (Lit l # ps) s =
     (if startswith s l then map_option (\<lambda>k. length l + k) (match_pieces ps (drop (length l) s))
      else None)"
| "match_pieces (Spaces # ps) s =
     (let n = length (takeWhile is_space s)
      in map_option (\<lambda>k. n + k) (match_pieces ps (drop n s)))"
| "match_pieces (OneOf cs # ps) s =
     (case s of
        [] \<Rightarrow> None
      | c # r \<Rightarrow> if c \<in> set cs then map_option Suc (match_pieces ps r) else None)"

text \<open>Line 275: \<^verbatim>\<open>//.*?\n|/\*.*?\*/\<close> with \<^verbatim>\<open>re.S\<close>, replaced by the empty string.\<close>

definition comment_match :: "string \<Rightarrow> (nat \<times> string) option" where
  "comment_match s =
     (case (if startswith s ''//'' then find_end [CHR 0x0A] (drop 2 s) else None) of
        Some k \<Rightarrow> Some (Suc k, [])
      | None \<Rightarrow>
          (case (if startswith s ''/*'' then find_end ''*/'' (drop 2 s) else None) of
             Some k \<Rightarrow> Some (Suc k, [])
           | None \<Rightarrow> None))"

text \<open>Lines 277 to 281: the production ternary, replaced by \<^verbatim>\<open>"warn"\<close>.\<close>

definition ternary_pieces :: "piece list" where
  "ternary_pieces =
     [Lit ''process.env.NODE_ENV'', Spaces, Lit ''==='', Spaces,
      OneOf [CHR 0x27, CHR 0x22], Lit ''production'', OneOf [CHR 0x27, CHR 0x22], Spaces,
      Lit ''?'', Spaces,
      OneOf [CHR 0x27, CHR 0x22], Lit ''error'', OneOf [CHR 0x27, CHR 0x22], Spaces,
      Lit '':'', Spaces,
      OneOf [CHR 0x27, CHR 0x22], Lit ''warn'', OneOf [CHR 0x27, CHR 0x22]]"

definition ternary_match :: "string \<Rightarrow> (nat \<times> string) option" where
  "ternary_match s =
     (case match_pieces ternary_pieces s of
        Some (Suc n) \<Rightarrow> Some (n, [CHR 0x22] @ ''warn'' @ [CHR 0x22])
      | _ \<Rightarrow> None)"

text \<open>
  Line 284: \<^verbatim>\<open>([a-zA-Z0-9_-]+)(?=\s*:)\<close>, replaced by the group in double quotes. The
  group is tried from its longest extent down to one character, as the greedy \<^verbatim>\<open>+\<close>
  backtracks.
\<close>

definition lookahead_colon :: "string \<Rightarrow> bool" where
  "lookahead_colon s = (case dropWhile is_space s of c # r \<Rightarrow> c = CHR '':'' | [] \<Rightarrow> False)"

fun key_match_len :: "nat \<Rightarrow> string \<Rightarrow> nat option" where
  "key_match_len 0 s = None"
| "key_match_len (Suc k) s =
     (if lookahead_colon (drop (Suc k) s) then Some (Suc k) else key_match_len k s)"

definition key_match :: "string \<Rightarrow> (nat \<times> string) option" where
  "key_match s =
     (case key_match_len (length (takeWhile is_key_char s)) s of
        Some (Suc n) \<Rightarrow> Some (n, [CHR 0x22] @ take (Suc n) s @ [CHR 0x22])
      | _ \<Rightarrow> None)"

text \<open>\<^verbatim>\<open>f'"{line}"'\<close>.\<close>

definition quoted :: "string \<Rightarrow> string" where
  "quoted line = [CHR 0x22] @ line @ [CHR 0x22]"

text \<open>Lines 254 to 267: what one stripped line adds to \<^verbatim>\<open>processed_lines\<close>.\<close>

definition process_line :: "string \<Rightarrow> string list" where
  "process_line line =
     (if line = [] then []
      else if startswith line ''eslint:'' then [quoted line]
      else if startswith line ''plugin:'' then [quoted line]
      else if CHR '':'' \<in> set line then [quoted (py_replace [CHR 0x22] [] line)]
      else if line = ''prettier'' then [quoted ''prettier'']
      else [quoted line])"

text \<open>Lines 250 to 267 of \<^verbatim>\<open>process_extends_content\<close>.\<close>

definition processed_lines :: "string \<Rightarrow> string list" where
  "processed_lines extends_content =
     concat (map process_line
       (map (\<lambda>line. strip_chars (\<lambda>c. c = CHR 0x22) (strip_chars (\<lambda>c. c = CHR '','') (strip_chars is_space line)))
          (split_newline extends_content)))"

text \<open>Line 269: the replacement text.\<close>

definition process_extends_content :: "string \<Rightarrow> string" where
  "process_extends_content extends_content =
     quoted ''extends'' @ '': ['' @ [CHR 0x0A] @ ''        ''
     @ py_join ('','' @ [CHR 0x0A] @ ''        '') (processed_lines extends_content)
     @ [CHR 0x0A] @ ''    ]''"

text \<open>
  Lines 246 and 271: \<^verbatim>\<open>"extends"\s*:\s*\[(.*?)\]\<close> with \<^verbatim>\<open>re.DOTALL\<close>; the group is the
  text up to the first closing bracket.
\<close>

definition extends_match :: "string \<Rightarrow> (nat \<times> string) option" where
  "extends_match s =
     (case match_pieces [Lit (quoted ''extends''), Spaces, Lit '':'', Spaces, Lit ''[''] s of
        None \<Rightarrow> None
      | Some n \<Rightarrow>
          (case find_end '']'' (drop n s) of
             None \<Rightarrow> None
           | Some k \<Rightarrow> Some (n + k - 1, process_extends_content (take (k - 1) (drop n s)))))"

definition preprocess_extends :: "string \<Rightarrow> string" where
  "preprocess_extends content = re_sub extends_match content"

text \<open>
  Lines 286 and 287: \<^verbatim>\<open>,(\s*[}\]])\<close> and \<^verbatim>\<open>,(\s*\n\s*[}\]])\<close>, replaced by the group. The
  second pattern matches where the whitespace before the closing bracket has a newline.
\<close>

definition is_closer :: "char \<Rightarrow> bool" where
  "is_closer c = (c = CHR ''}'' \<or> c = CHR '']'')"

definition trailing_comma_match :: "bool \<Rightarrow> string \<Rightarrow> (nat \<times> string) option" where
  "trailing_comma_match needs_newline s =
     (case s of
        [] \<Rightarrow> None
      | c # r \<Rightarrow>
          if c \<noteq> CHR '','' then None
          else
            let ws = takeWhile is_space r
            in (case drop (length ws) r of
                  [] \<Rightarrow> None
                | d # r' \<Rightarrow>
                    if is_closer d \<and> (if needs_newline then CHR 0x0A \<in> set ws else True)
                    then Some (Suc (length ws), ws @ [d])
                    else None))"

text \<open>
  \<^verbatim>\<open>clean_js_object\<close>, lines 273 to 294. None of the steps raises on a string, so the
  \<^verbatim>\<open>except\<close> branch that returns \<^verbatim>\<open>None\<close> is never taken.
\<close>

definition clean_js_object :: "string \<Rightarrow> string" where
  "clean_js_object content =
     (let content = re_sub comment_match content;
          content = re_sub ternary_match content;
          content = py_replace [CHR 0x27] [CHR 0x22] content;
          content = re_sub key_match content;
          content = preprocess_extends content;
          content = re_sub (trailing_comma_match False) content;
          content = re_sub (trailing_comma_match True) content
      in strip_chars is_space content)"

section \<open>Notions used in the statements\<close>

text \<open>The patterns of a page, none when the key \<^verbatim>\<open>data\<close> is absent.\<close>

definition page_items :: "'d page \<Rightarrow> 'd catalog_pattern list" where
  "page_items p = (case page_data p of None \<Rightarrow> [] | Some ps \<Rightarrow> ps)"

text \<open>
  The service serves the pages \<open>ps\<close>, linked by cursors, to a listing that starts at
  the given trace and cursor: each request is answered by the next page, every page but
  the last carries a cursor, and the last carries none.
\<close>

fun serves :: "'d remote \<Rightarrow> string \<Rightarrow> event list \<Rightarrow> string option \<Rightarrow> 'd page list \<Rightarrow> bool" where
  "serves R tool_uuid tr cursor [] = False"
| "serves R tool_uuid tr cursor (p # ps) =
     (patterns_response R (tr @ [GetPatterns tool_uuid cursor]) = Inr p
      \<and> (if ps = [] then \<not> cursor_truthy (page_cursor p)
         else cursor_truthy (page_cursor p)
              \<and> serves R tool_uuid (tr @ [GetPatterns tool_uuid cursor]) (page_cursor p) ps))"

text \<open>A service whose catalog has three pages of 100, 100 and 40 patterns.\<close>

definition three_page_remote :: "unit remote" where
  "three_page_remote =
     \<lparr>tools_response = (\<lambda>h. Inr []),
      patterns_response = (\<lambda>h.
         case last h of
           GetPatterns t c \<Rightarrow>
             if c = None
             then Inr \<lparr>page_data = Some (replicate 100 (catalog_entry ''ESLint8_a'' ())),
                       page_cursor = Some ''c1''\<rparr>
             else if c = Some ''c1''
             then Inr \<lparr>page_data = Some (replicate 100 (catalog_entry ''ESLint8_b'' ())),
                       page_cursor = Some ''c2''\<rparr>
             else Inr \<lparr>page_data = Some (replicate 40 (catalog_entry ''ESLint8_c'' ())),
                       page_cursor = None\<rparr>
         | _ \<Rightarrow> Inl (OtherException ''unexpected'')),
      patch_response = (\<lambda>h. None)\<rparr>"

text \<open>What a batch update may append to the trace: a sleep, or a slice of the pattern list.\<close>

definition batch_event_ok :: "string \<Rightarrow> directive list \<Rightarrow> nat \<Rightarrow> event \<Rightarrow> bool" where
  "batch_event_ok t ps bs ev =
     (ev = Sleep 2 \<or> (\<exists>k < length ps. ev = Patch t True (take bs (drop k ps))))"

text \<open>A service that rejects every update call, and one that accepts every call.\<close>

definition failing_remote :: "unit remote" where
  "failing_remote =
     \<lparr>tools_response = (\<lambda>h. Inr [''tool-1'', ''tool-2'']),
      patterns_response = (\<lambda>h. Inl (RequestException ''503'')),
      patch_response = (\<lambda>h. Some (RequestException ''503''))\<rparr>"

definition accepting_remote :: "unit remote" where
  "accepting_remote =
     \<lparr>tools_response = (\<lambda>h. Inr []),
      patterns_response = (\<lambda>h. Inr \<lparr>page_data = None, page_cursor = None\<rparr>),
      patch_response = (\<lambda>h. None)\<rparr>"

text \<open>
  A service that rejects the first update call for a tool and accepts the call that
  follows a sleep.
\<close>

definition flaky_remote :: "unit remote" where
  "flaky_remote =
     \<lparr>tools_response = (\<lambda>h. Inr [''tool-1'', ''tool-2'']),
      patterns_response = (\<lambda>h. Inl (RequestException ''503'')),
      patch_response = (\<lambda>h.
         case rev h of
           request # Sleep n # earlier \<Rightarrow> None
         | _ \<Rightarrow> Some (RequestException ''503''))\<rparr>"

text \<open>
  The configuration of the example in three spellings of the source dialect (entries in
  single quotes under a bare key, everything in double quotes, and entries without
  quotes), each entry on a line of its own, and the text they are normalised to.
\<close>

definition dquote :: string where "dquote = [CHR 0x22]"
definition squote :: string where "squote = [CHR 0x27]"
definition newline :: string where "newline = [CHR 0x0A]"

definition extends_single_quoted :: string where
  "extends_single_quoted =
     ''{'' @ newline @
     ''  extends: ['' @ newline @
     ''    '' @ squote @ ''eslint:recommended'' @ squote @ '','' @ newline @
     ''    '' @ squote @ ''plugin:react/recommended'' @ squote @ '','' @ newline @
     ''    '' @ squote @ ''prettier'' @ squote @ newline @
     ''  ]'' @ newline @
     ''}'' @ newline"

definition extends_double_quoted :: string where
  "extends_double_quoted =
     ''{'' @ newline @
     ''  '' @ dquote @ ''extends'' @ dquote @ '': ['' @ newline @
     ''    '' @ dquote @ ''eslint:recommended'' @ dquote @ '','' @ newline @
     ''    '' @ dquote @ ''plugin:react/recommended'' @ dquote @ '','' @ newline @
     ''    '' @ dquote @ ''prettier'' @ dquote @ newline @
     ''  ]'' @ newline @
     ''}'' @ newline"

definition extends_unquoted :: string where
  "extends_unquoted =
     ''{'' @ newline @
     ''  extends: ['' @ newline @
     ''    eslint:recommended,'' @ newline @
     ''    plugin:react/recommended,'' @ newline @
     ''    prettier'' @ newline @
     ''  ]'' @ newline @
     ''}'' @ newline"

definition extends_normalized :: string where
  "extends_normalized =
     ''{'' @ newline @
     ''  '' @ dquote @ ''extends'' @ dquote @ '': ['' @ newline @
     ''        '' @ dquote @ ''eslint:recommended'' @ dquote @ '','' @ newline @
     ''        '' @ dquote @ ''plugin:react/recommended'' @ dquote @ '','' @ newline @
     ''        '' @ dquote @ ''prettier'' @ dquote @ newline @
     ''    ]'' @ newline @
     ''}''"

section \<open>Properties of the Rule Translator\<close>

lemma build_pattern_fields:
  "pat_id (build_pattern L r p) = r \<and> pat_enabled (build_pattern L r p)
   \<and> pat_patternId (build_pattern L r p) = r"
  by (cases p) (simp_all add: build_pattern_def Let_def)

lemma enabled_singleton_pattern:
  "severity_enabled (symbolic_severity sev) \<Longrightarrow>
     map_eslint_rule_to_codacy L r (JList [sev])
       = Some \<lparr>pat_id = r, pat_enabled = True, pat_patternId = r, pat_parameters = None\<rparr>"
  by (simp add: map_eslint_rule_to_codacy_def build_pattern_def)

lemma enabled_list_pattern:
  "severity_enabled (symbolic_severity sev) \<Longrightarrow>
     map_eslint_rule_to_codacy L r (JList (sev # q # rest))
       = Some \<lparr>pat_id = r, pat_enabled = True, pat_patternId = r,
                pat_parameters =
                  (case q of
                     JDict kvs \<Rightarrow> (if kvs = [] then None else Some (map (map_param L) kvs))
                   | _ \<Rightarrow> None)\<rparr>"
  by (cases q) (simp_all add: map_eslint_rule_to_codacy_def build_pattern_def Let_def)

lemma enabled_string_pattern:
  "s = ''error'' \<or> s = ''warn'' \<Longrightarrow>
     map_eslint_rule_to_codacy L r (JStr s)
       = Some \<lparr>pat_id = r, pat_enabled = True, pat_patternId = r, pat_parameters = None\<rparr>"
  by (auto simp: map_eslint_rule_to_codacy_def build_pattern_def symbolic_severity_def
      severity_enabled_def)

lemma enabled_number_pattern:
  "is_number n \<Longrightarrow> \<not> py_eq_int n 0 \<Longrightarrow>
     map_eslint_rule_to_codacy L r n
       = Some \<lparr>pat_id = r, pat_enabled = True, pat_patternId = r, pat_parameters = None\<rparr>"
  by (simp add: map_eslint_rule_to_codacy_def build_pattern_def symbolic_severity_def
      severity_enabled_def)

lemma mapping_pattern:
  "map_eslint_rule_to_codacy L r (JDict kvs)
     = Some \<lparr>pat_id = r, pat_enabled = True, pat_patternId = r,
              pat_parameters = (if kvs = [] then None else Some (map (map_param L) kvs))\<rparr>"
  by (simp add: map_eslint_rule_to_codacy_def build_pattern_def symbolic_severity_def
      severity_enabled_def Let_def)

lemma parameters_of_result:
  assumes "map_eslint_rule_to_codacy L rule_name rule_config = Some p"
  shows "pat_parameters p =
           (case rule_config of
              JList (s # JDict kvs # rest) \<Rightarrow>
                (if kvs = [] then None else Some (map (map_param L) kvs))
            | JDict kvs \<Rightarrow> (if kvs = [] then None else Some (map (map_param L) kvs))
            | _ \<Rightarrow> None)"
proof (cases rule_config)
  case (JList xs)
  show ?thesis
  proof (cases xs)
    case Nil
    with JList assms show ?thesis
      by (simp add: map_eslint_rule_to_codacy_def)
  next
    case (Cons s ys)
    show ?thesis
    proof (cases ys)
      case Nil
      with Cons JList assms show ?thesis
        by (auto simp: map_eslint_rule_to_codacy_def build_pattern_def split: if_splits)
    next
      case (Cons q rest)
      with \<open>xs = s # ys\<close> JList assms show ?thesis
        by (cases q) (auto simp: map_eslint_rule_to_codacy_def build_pattern_def Let_def
            split: if_splits)
    qed
  qed
next
  case (JDict kvs)
  with assms show ?thesis
    by (auto simp: map_eslint_rule_to_codacy_def build_pattern_def Let_def split: if_splits)
qed (use assms in \<open>auto simp: map_eslint_rule_to_codacy_def build_pattern_def Let_def
      split: if_splits\<close>)

text \<open>
  C10. A rule value with an enabled severity always gives a pattern, and the pattern
  carries a \<^verbatim>\<open>parameters\<close> field exactly when the payload is a non-empty mapping, the
  field then listing the mapping's items in order. A list without a second element, a
  second element that is a scalar, a list or an empty mapping, a bare severity string and
  a bare number all give the pattern without the field; a rule value that is itself a
  mapping is enabled and carries the field unless it is empty. Whenever any rule value
  gives a pattern, its field is determined by the payload in the same way.
\<close>

theorem parameters_only_for_nonempty_mapping:
  "(severity_enabled (symbolic_severity sev) \<longrightarrow>
      map_eslint_rule_to_codacy L r (JList [sev])
        = Some \<lparr>pat_id = r, pat_enabled = True, pat_patternId = r, pat_parameters = None\<rparr>
      \<and> map_eslint_rule_to_codacy L r (JList (sev # q # others))
        = Some \<lparr>pat_id = r, pat_enabled = True, pat_patternId = r,
                 pat_parameters =
                   (case q of
                      JDict kvs \<Rightarrow> (if kvs = [] then None else Some (map (map_param L) kvs))
                    | _ \<Rightarrow> None)\<rparr>)
   \<and> (word = ''error'' \<or> word = ''warn'' \<longrightarrow>
      map_eslint_rule_to_codacy L r (JStr word)
        = Some \<lparr>pat_id = r, pat_enabled = True, pat_patternId = r, pat_parameters = None\<rparr>)
   \<and> (is_number n \<and> \<not> py_eq_int n 0 \<longrightarrow>
      map_eslint_rule_to_codacy L r n
        = Some \<lparr>pat_id = r, pat_enabled = True, pat_patternId = r, pat_parameters = None\<rparr>)
   \<and> map_eslint_rule_to_codacy L r (JDict items)
        = Some \<lparr>pat_id = r, pat_enabled = True, pat_patternId = r,
                 pat_parameters = (if items = [] then None else Some (map (map_param L) items))\<rparr>
   \<and> (map_eslint_rule_to_codacy L r rule_config = Some p \<longrightarrow>
      pat_parameters p =
        (case rule_config of
           JList (s # JDict kvs # rest) \<Rightarrow>
             (if kvs = [] then None else Some (map (map_param L) kvs))
         | JDict kvs \<Rightarrow> (if kvs = [] then None else Some (map (map_param L) kvs))
         | _ \<Rightarrow> None))"
  using enabled_singleton_pattern [of sev L r] enabled_list_pattern [of sev L r q others]
    enabled_string_pattern [of word L r]
    enabled_number_pattern [of n L r] mapping_pattern [of L r items]
    parameters_of_result [of L r rule_config p]
  by blast

theorem parameters_only_for_nonempty_mapping_witness:
  "severity_enabled (symbolic_severity (JInt 2))
   \<and> map_eslint_rule_to_codacy \<lparr>json_dumps = (\<lambda>v. []), float_repr = (\<lambda>f. [])\<rparr> ''max-len''
        (JList [JInt 2, JInt 100])
      = Some \<lparr>pat_id = ''max-len'', pat_enabled = True, pat_patternId = ''max-len'',
               pat_parameters = None\<rparr>
   \<and> map_eslint_rule_to_codacy \<lparr>json_dumps = (\<lambda>v. []), float_repr = (\<lambda>f. [])\<rparr> ''max-len''
        (JList [JInt 2, JList [JStr ''code'', JInt 100]])
      = Some \<lparr>pat_id = ''max-len'', pat_enabled = True, pat_patternId = ''max-len'',
               pat_parameters = None\<rparr>
   \<and> map_eslint_rule_to_codacy \<lparr>json_dumps = (\<lambda>v. []), float_repr = (\<lambda>f. [])\<rparr> ''max-len''
        (JList [JInt 2, JDict []])
      = Some \<lparr>pat_id = ''max-len'', pat_enabled = True, pat_patternId = ''max-len'',
               pat_parameters = None\<rparr>
   \<and> map_eslint_rule_to_codacy \<lparr>json_dumps = (\<lambda>v. []), float_repr = (\<lambda>f. [])\<rparr> ''max-len''
        (JList [JInt 2, JDict [(''code'', JInt 100)]])
      = Some \<lparr>pat_id = ''max-len'', pat_enabled = True, pat_patternId = ''max-len'',
               pat_parameters = Some [\<lparr>param_name = ''code'', param_value = ''100''\<rparr>]\<rparr>"
proof -
  let ?L = "\<lparr>json_dumps = (\<lambda>v. []), float_repr = (\<lambda>f. [])\<rparr>"
  have e: "severity_enabled (symbolic_severity (JInt 2))"
    by (simp add: severity_enabled_def symbolic_severity_def)
  have v: "str_of_int 100 = ''100''"
    by code_simp
  from e parameters_only_for_nonempty_mapping [of "JInt 2" ?L "''max-len''" "JInt 100" "[]"]
  have 1: "map_eslint_rule_to_codacy ?L ''max-len'' (JList [JInt 2, JInt 100])
      = Some \<lparr>pat_id = ''max-len'', pat_enabled = True, pat_patternId = ''max-len'',
               pat_parameters = None\<rparr>"
    by simp
  from e parameters_only_for_nonempty_mapping
    [of "JInt 2" ?L "''max-len''" "JList [JStr ''code'', JInt 100]" "[]"]
  have 2: "map_eslint_rule_to_codacy ?L ''max-len'' (JList [JInt 2, JList [JStr ''code'', JInt 100]])
      = Some \<lparr>pat_id = ''max-len'', pat_enabled = True, pat_patternId = ''max-len'',
               pat_parameters = None\<rparr>"
    by simp
  from e parameters_only_for_nonempty_mapping [of "JInt 2" ?L "''max-len''" "JDict []" "[]"]
  have 3: "map_eslint_rule_to_codacy ?L ''max-len'' (JList [JInt 2, JDict []])
      = Some \<lparr>pat_id = ''max-len'', pat_enabled = True, pat_patternId = ''max-len'',
               pat_parameters = None\<rparr>"
    by simp
  from e parameters_only_for_nonempty_mapping
    [of "JInt 2" ?L "''max-len''" "JDict [(''code'', JInt 100)]" "[]"]
  have 4: "map_eslint_rule_to_codacy ?L ''max-len'' (JList [JInt 2, JDict [(''code'', JInt 100)]])
      = Some \<lparr>pat_id = ''max-len'', pat_enabled = True, pat_patternId = ''max-len'',
               pat_parameters = Some [\<lparr>param_name = ''code'', param_value = ''100''\<rparr>]\<rparr>"
    by (simp add: map_param_def v)
  from e 1 2 3 4 show ?thesis
    by (intro conjI)
qed

text \<open>
  C1. The scalar \<^verbatim>\<open>0\<close>, the string \<^verbatim>\<open>"off"\<close> and the list \<^verbatim>\<open>["off"]\<close> give no pattern.
  The list \<^verbatim>\<open>[0]\<close> does: its head is numeric and not \<^verbatim>\<open>2\<close>, so line 364 rewrites it to
  \<^verbatim>\<open>"warn"\<close>; the test for \<^verbatim>\<open>0\<close> of line 345 is made on the scalar only.
\<close>

theorem zero_severity_in_list_emits_pattern:
  "map_eslint_rule_to_codacy L r (JInt 0) = None
   \<and> map_eslint_rule_to_codacy L r (JStr ''off'') = None
   \<and> map_eslint_rule_to_codacy L r (JList [JStr ''off'']) = None
   \<and> map_eslint_rule_to_codacy L r (JList [JInt 0])
       = Some \<lparr>pat_id = r, pat_enabled = True, pat_patternId = r, pat_parameters = None\<rparr>"
  by (simp add: map_eslint_rule_to_codacy_def build_pattern_def symbolic_severity_def
      severity_enabled_def)

text \<open>
  C2. A string other than \<^verbatim>\<open>"error"\<close> and \<^verbatim>\<open>"warn"\<close> gives no pattern, but the number
  \<^verbatim>\<open>3\<close> does, as a scalar and as the head of a list: every number other than \<^verbatim>\<open>2\<close>
  (and other than a scalar \<^verbatim>\<open>0\<close>) is rewritten to \<^verbatim>\<open>"warn"\<close> before the membership test
  of line 365 is made.
\<close>

theorem severity_three_emits_pattern:
  "map_eslint_rule_to_codacy L r (JStr ''always'') = None
   \<and> symbolic_severity (JInt 1) = JStr ''warn''
   \<and> symbolic_severity (JInt 2) = JStr ''error''
   \<and> symbolic_severity (JInt 3) = JStr ''warn''
   \<and> map_eslint_rule_to_codacy L r (JInt 3)
       = Some \<lparr>pat_id = r, pat_enabled = True, pat_patternId = r, pat_parameters = None\<rparr>
   \<and> map_eslint_rule_to_codacy L r (JList [JInt 3])
       = Some \<lparr>pat_id = r, pat_enabled = True, pat_patternId = r, pat_parameters = None\<rparr>"
  by (simp add: map_eslint_rule_to_codacy_def build_pattern_def symbolic_severity_def
      severity_enabled_def)

section \<open>Properties of the Pattern Catalog Reconciler\<close>

lemma foldl_pattern_mapping_sound:
  "foldl add_pattern_mapping m all_patterns k = Some pid \<Longrightarrow>
     m k = Some pid \<or>
     (\<exists>c \<in> set all_patterns. catalog_id c = Some pid
        \<and> (k = base_id_of pid \<or> k = py_replace ''/'' ''_'' (base_id_of pid)))"
proof (induction all_patterns arbitrary: m)
  case Nil
  then show ?case by simp
next
  case (Cons c cs)
  from Cons.IH [OF Cons.prems [simplified]]
  show ?case
    by (auto simp: add_pattern_mapping_def Let_def split: option.splits if_splits)
qed

lemma pattern_mapping_sound:
  "pattern_mapping all_patterns k = Some pid \<Longrightarrow>
     \<exists>c \<in> set all_patterns. catalog_id c = Some pid
        \<and> (k = base_id_of pid \<or> k = py_replace ''/'' ''_'' (base_id_of pid))"
  using foldl_pattern_mapping_sound [of Map.empty all_patterns k pid]
  by (simp add: pattern_mapping_def)

lemma find_codacy_id_cases:
  "find_codacy_id m r = Some c \<Longrightarrow> m r = Some c \<or> m (py_replace ''/'' ''_'' r) = Some c"
  by (auto simp: find_codacy_id_def Let_def split: if_splits)

lemma enabled_patterns_elem:
  "ep \<in> set (enabled_patterns m patterns) \<Longrightarrow>
     \<exists>p \<in> set patterns. find_codacy_id m (pat_id p) = Some (dir_id ep)
        \<and> ep = enable_directive (dir_id ep) p"
  by (induction patterns) (auto simp: enable_directive_def split: option.splits if_splits)

lemma disabled_patterns_eq:
  "disabled_patterns enabled all_patterns =
     map disable_directive
       (filter (\<lambda>pid. pid \<notin> dir_id ` set enabled) (List.map_filter catalog_id all_patterns))"
  by (induction all_patterns)
     (auto simp: List.map_filter_simps list_ex_iff image_iff split: option.splits)

text \<open>
  C3. Every enable-directive the reconciler emits is enabled and comes from a configured
  rule whose identifier, as it is or with \<^verbatim>\<open>/\<close> replaced by \<^verbatim>\<open>_\<close>, is the
  prefix-stripped identifier of a catalog pattern or its underscore-normalised form; the
  directive carries that catalog pattern's identifier. The disable-directives are, in
  catalog order, exactly the catalog identifiers that no enable-directive carries, each
  with an empty parameter list.
\<close>

theorem reconcile_enables_matches_disables_rest:
  assumes "reconcile all_patterns patterns = (enabled, disabled)"
  shows "(\<forall>ep \<in> set enabled.
            dir_enabled ep
            \<and> (\<exists>p \<in> set patterns. \<exists>c \<in> set all_patterns.
                  catalog_id c = Some (dir_id ep)
                  \<and> (pat_id p = base_id_of (dir_id ep)
                     \<or> pat_id p = py_replace ''/'' ''_'' (base_id_of (dir_id ep))
                     \<or> py_replace ''/'' ''_'' (pat_id p) = base_id_of (dir_id ep)
                     \<or> py_replace ''/'' ''_'' (pat_id p) = py_replace ''/'' ''_'' (base_id_of (dir_id ep)))))
         \<and> disabled =
             map disable_directive
               (filter (\<lambda>pid. pid \<notin> dir_id ` set enabled)
                  (List.map_filter catalog_id all_patterns))"
proof (intro conjI ballI)
  from assms have en: "enabled = enabled_patterns (pattern_mapping all_patterns) patterns"
    and dis: "disabled = disabled_patterns enabled all_patterns"
    by (auto simp: reconcile_def Let_def)
  show "disabled = map disable_directive
          (filter (\<lambda>pid. pid \<notin> dir_id ` set enabled) (List.map_filter catalog_id all_patterns))"
    using dis by (simp add: disabled_patterns_eq)
  fix ep assume "ep \<in> set enabled"
  then obtain p where p: "p \<in> set patterns"
      and f: "find_codacy_id (pattern_mapping all_patterns) (pat_id p) = Some (dir_id ep)"
      and e: "ep = enable_directive (dir_id ep) p"
    using en enabled_patterns_elem by blast
  from e have "dir_enabled ep" by (metis directive.select_convs(2) enable_directive_def)
  then show "dir_enabled ep" .
  from find_codacy_id_cases [OF f]
  show "\<exists>p \<in> set patterns. \<exists>c \<in> set all_patterns.
                  catalog_id c = Some (dir_id ep)
                  \<and> (pat_id p = base_id_of (dir_id ep)
                     \<or> pat_id p = py_replace ''/'' ''_'' (base_id_of (dir_id ep))
                     \<or> py_replace ''/'' ''_'' (pat_id p) = base_id_of (dir_id ep)
                     \<or> py_replace ''/'' ''_'' (pat_id p) = py_replace ''/'' ''_'' (base_id_of (dir_id ep)))"
  proof
    assume "pattern_mapping all_patterns (pat_id p) = Some (dir_id ep)"
    from pattern_mapping_sound [OF this] p show ?thesis by blast
  next
    assume "pattern_mapping all_patterns (py_replace ''/'' ''_'' (pat_id p)) = Some (dir_id ep)"
    from pattern_mapping_sound [OF this] p show ?thesis by blast
  qed
qed

theorem reconcile_enables_matches_disables_rest_witness:
  "reconcile [catalog_entry ''ESLint8_no-unused-vars'' (), catalog_entry ''ESLint8_semi'' ()]
      [\<lparr>pat_id = ''no-unused-vars'', pat_enabled = True, pat_patternId = ''no-unused-vars'',
        pat_parameters = None\<rparr>]
     = ([\<lparr>dir_id = ''ESLint8_no-unused-vars'', dir_enabled = True, dir_parameters = []\<rparr>],
        [\<lparr>dir_id = ''ESLint8_semi'', dir_enabled = False, dir_parameters = []\<rparr>])
   \<and> [\<lparr>dir_id = ''ESLint8_semi'', dir_enabled = False, dir_parameters = []\<rparr>]
     = map disable_directive
         (filter (\<lambda>pid. pid \<notin> dir_id ` set [\<lparr>dir_id = ''ESLint8_no-unused-vars'',
                                               dir_enabled = True, dir_parameters = []\<rparr>])
            (List.map_filter catalog_id
               [catalog_entry ''ESLint8_no-unused-vars'' (), catalog_entry ''ESLint8_semi'' ()]))"
proof -
  have h: "reconcile [catalog_entry ''ESLint8_no-unused-vars'' (), catalog_entry ''ESLint8_semi'' ()]
      [\<lparr>pat_id = ''no-unused-vars'', pat_enabled = True, pat_patternId = ''no-unused-vars'',
        pat_parameters = None\<rparr>]
     = ([\<lparr>dir_id = ''ESLint8_no-unused-vars'', dir_enabled = True, dir_parameters = []\<rparr>],
        [\<lparr>dir_id = ''ESLint8_semi'', dir_enabled = False, dir_parameters = []\<rparr>])"
    by (simp add: reconcile_def pattern_mapping_def add_pattern_mapping_def catalog_entry_def
        catalog_id_def base_id_of_def startswith_def find_codacy_id_def enable_directive_def
        disable_directive_def Let_def py_replace.simps)
  from reconcile_enables_matches_disables_rest [OF h] h show ?thesis
    by simp
qed

text \<open>
  C4. For every matching index and every list of configured patterns, the directives are
  obtained pattern by pattern, in order: the direct lookup of the pattern's identifier
  decides when it hits, and only when it misses the identifier with \<^verbatim>\<open>/\<close> replaced by
  \<^verbatim>\<open>_\<close> is looked up; a pattern that misses twice gives no directive. The rule
  \<^verbatim>\<open>no-unused-vars\<close> hits the index of the catalog entry \<^verbatim>\<open>ESLint8_no-unused-vars\<close>
  directly, and the rule \<^verbatim>\<open>react/jsx-uses-vars\<close> misses the index of
  \<^verbatim>\<open>ESLint8_react_jsx-uses-vars\<close> directly and hits it after normalisation; both become
  enable-directives with the catalog identifier.
\<close>

theorem lookup_direct_then_normalized:
  "enabled_patterns m patterns =
     concat (map (\<lambda>p.
        case m (pat_id p) of
          Some c \<Rightarrow> (if c = [] then [] else [enable_directive c p])
        | None \<Rightarrow>
            (case m (py_replace ''/'' ''_'' (pat_id p)) of
               Some c \<Rightarrow> (if c = [] then [] else [enable_directive c p])
             | None \<Rightarrow> [])) patterns)
   \<and> pattern_mapping [catalog_entry ''ESLint8_no-unused-vars'' b] ''no-unused-vars''
       = Some ''ESLint8_no-unused-vars''
   \<and> reconcile [catalog_entry ''ESLint8_no-unused-vars'' b]
        [\<lparr>pat_id = ''no-unused-vars'', pat_enabled = True, pat_patternId = ''no-unused-vars'',
          pat_parameters = None\<rparr>]
       = ([\<lparr>dir_id = ''ESLint8_no-unused-vars'', dir_enabled = True, dir_parameters = []\<rparr>], [])
   \<and> pattern_mapping [catalog_entry ''ESLint8_react_jsx-uses-vars'' b] ''react/jsx-uses-vars''
       = None
   \<and> py_replace ''/'' ''_'' ''react/jsx-uses-vars'' = ''react_jsx-uses-vars''
   \<and> pattern_mapping [catalog_entry ''ESLint8_react_jsx-uses-vars'' b] ''react_jsx-uses-vars''
       = Some ''ESLint8_react_jsx-uses-vars''
   \<and> reconcile [catalog_entry ''ESLint8_react_jsx-uses-vars'' b]
        [\<lparr>pat_id = ''react/jsx-uses-vars'', pat_enabled = True,
          pat_patternId = ''react/jsx-uses-vars'', pat_parameters = None\<rparr>]
       = ([\<lparr>dir_id = ''ESLint8_react_jsx-uses-vars'', dir_enabled = True, dir_parameters = []\<rparr>], [])"
proof -
  have general: "enabled_patterns m patterns =
     concat (map (\<lambda>p.
        case m (pat_id p) of
          Some c \<Rightarrow> (if c = [] then [] else [enable_directive c p])
        | None \<Rightarrow>
            (case m (py_replace ''/'' ''_'' (pat_id p)) of
               Some c \<Rightarrow> (if c = [] then [] else [enable_directive c p])
             | None \<Rightarrow> [])) patterns)"
    by (induction patterns) (simp_all add: find_codacy_id_def Let_def split: option.splits)
  have r1: "py_replace ''/'' ''_'' ''no-unused-vars'' = ''no-unused-vars''"
    by (simp add: py_replace.simps startswith_def)
  have r2: "py_replace ''/'' ''_'' ''react/jsx-uses-vars'' = ''react_jsx-uses-vars''"
    by (simp add: py_replace.simps startswith_def)
  have r3: "py_replace ''/'' ''_'' ''react_jsx-uses-vars'' = ''react_jsx-uses-vars''"
    by (simp add: py_replace.simps startswith_def)
  have m1: "pattern_mapping [catalog_entry ''ESLint8_no-unused-vars'' b]
              = [''no-unused-vars'' \<mapsto> ''ESLint8_no-unused-vars'']"
    by (simp add: pattern_mapping_def add_pattern_mapping_def catalog_entry_def catalog_id_def
        base_id_of_def startswith_def r1 Let_def)
  have m2: "pattern_mapping [catalog_entry ''ESLint8_react_jsx-uses-vars'' b]
              = [''react_jsx-uses-vars'' \<mapsto> ''ESLint8_react_jsx-uses-vars'']"
    by (simp add: pattern_mapping_def add_pattern_mapping_def catalog_entry_def catalog_id_def
        base_id_of_def startswith_def r3 Let_def)
  have c1: "reconcile [catalog_entry ''ESLint8_no-unused-vars'' b]
        [\<lparr>pat_id = ''no-unused-vars'', pat_enabled = True, pat_patternId = ''no-unused-vars'',
          pat_parameters = None\<rparr>]
       = ([\<lparr>dir_id = ''ESLint8_no-unused-vars'', dir_enabled = True, dir_parameters = []\<rparr>], [])"
    unfolding reconcile_def m1
    by (simp add: find_codacy_id_def enable_directive_def catalog_entry_def catalog_id_def)
  have c2: "reconcile [catalog_entry ''ESLint8_react_jsx-uses-vars'' b]
        [\<lparr>pat_id = ''react/jsx-uses-vars'', pat_enabled = True,
          pat_patternId = ''react/jsx-uses-vars'', pat_parameters = None\<rparr>]
       = ([\<lparr>dir_id = ''ESLint8_react_jsx-uses-vars'', dir_enabled = True, dir_parameters = []\<rparr>], [])"
    unfolding reconcile_def m2
    by (simp add: find_codacy_id_def enable_directive_def catalog_entry_def catalog_id_def r2)
  show ?thesis
    using general r2 c1 c2 by (simp add: m1 m2)
qed

lemma foldl_codacy_pattern_map_keeps:
  "m k \<noteq> None \<Longrightarrow> foldl add_codacy_pattern_map m all_patterns k \<noteq> None"
  by (induction all_patterns arbitrary: m)
     (auto simp: add_codacy_pattern_map_def Let_def split: option.splits)

lemma foldl_codacy_pattern_map_keys:
  "c \<in> set all_patterns \<Longrightarrow> patternDefinition c = Some d \<Longrightarrow> def_id d = Some pid \<Longrightarrow>
     foldl add_codacy_pattern_map m all_patterns pid \<noteq> None
     \<and> foldl add_codacy_pattern_map m all_patterns (base_id_of pid) \<noteq> None"
proof (induction all_patterns arbitrary: m)
  case Nil
  then show ?case by simp
next
  case (Cons a as)
  show ?case
  proof (cases "c = a")
    case True
    have "add_codacy_pattern_map m a pid \<noteq> None"
      and "add_codacy_pattern_map m a (base_id_of pid) \<noteq> None"
      using Cons.prems True
      by (auto simp: add_codacy_pattern_map_def base_id_of_def Let_def)
    then show ?thesis
      by (simp add: foldl_codacy_pattern_map_keeps)
  next
    case False
    with Cons show ?thesis by simp
  qed
qed

lemma foldl_pattern_mapping_keeps:
  "m k \<noteq> None \<Longrightarrow> foldl add_pattern_mapping m all_patterns k \<noteq> None"
  by (induction all_patterns arbitrary: m)
     (auto simp: add_pattern_mapping_def Let_def split: option.splits)

lemma foldl_pattern_mapping_keys:
  "c \<in> set all_patterns \<Longrightarrow> catalog_id c = Some pid \<Longrightarrow>
     foldl add_pattern_mapping m all_patterns (base_id_of pid) \<noteq> None
     \<and> foldl add_pattern_mapping m all_patterns (py_replace ''/'' ''_'' (base_id_of pid)) \<noteq> None"
proof (induction all_patterns arbitrary: m)
  case Nil
  then show ?case by simp
next
  case (Cons a as)
  show ?case
  proof (cases "c = a")
    case True
    have "add_pattern_mapping m a (base_id_of pid) \<noteq> None"
      and "add_pattern_mapping m a (py_replace ''/'' ''_'' (base_id_of pid)) \<noteq> None"
      using Cons.prems True
      by (auto simp: add_pattern_mapping_def Let_def)
    then show ?thesis
      by (simp add: foldl_pattern_mapping_keeps)
  next
    case False
    with Cons show ?thesis by simp
  qed
qed

lemma add_codacy_pattern_map_apply:
  "add_codacy_pattern_map m c k =
     (if k \<in> set (pattern_keys c) then patternDefinition c else m k)"
  by (auto simp: add_codacy_pattern_map_def pattern_keys_def Let_def split: option.splits)

lemma foldl_codacy_pattern_map_last:
  "foldl add_codacy_pattern_map m all_patterns k =
     (case find (\<lambda>c. k \<in> set (pattern_keys c)) (rev all_patterns) of
        None \<Rightarrow> m k
      | Some c \<Rightarrow> patternDefinition c)"
  by (induction all_patterns rule: rev_induct) (simp_all add: add_codacy_pattern_map_apply)

lemma codacy_pattern_map_last:
  "codacy_pattern_map all_patterns k =
     (case find (\<lambda>c. k \<in> set (pattern_keys c)) (rev all_patterns) of
        None \<Rightarrow> None
      | Some c \<Rightarrow> patternDefinition c)"
  by (simp add: codacy_pattern_map_def foldl_codacy_pattern_map_last)

lemma find_Some_member: "find P xs = Some x \<Longrightarrow> x \<in> set xs \<and> P x"
  by (induction xs) (auto split: if_splits)

lemma find_append_cases:
  "find P (xs @ ys) = (case find P xs of None \<Rightarrow> find P ys | Some x \<Rightarrow> Some x)"
  by (induction xs) simp_all

lemma own_keys:
  "patternDefinition c = Some d \<Longrightarrow> def_id d = Some pid \<Longrightarrow>
     pid \<in> set (pattern_keys c) \<and> base_id_of pid \<in> set (pattern_keys c)"
  by (simp add: pattern_keys_def base_id_of_def)

lemma codacy_pattern_map_later:
  assumes d: "patternDefinition c = Some d"
    and k: "k \<in> set (pattern_keys c)"
    and later: "\<forall>c' \<in> set after. k \<in> set (pattern_keys c') \<longrightarrow> patternDefinition c' = Some d"
  shows "codacy_pattern_map (before @ c # after) k = Some d"
proof (cases "find (\<lambda>c. k \<in> set (pattern_keys c)) (rev after)")
  case None
  with d k show ?thesis
    by (simp add: codacy_pattern_map_last find_append_cases)
next
  case (Some c')
  then have "c' \<in> set after" "k \<in> set (pattern_keys c')"
    using find_Some_member [of "\<lambda>c. k \<in> set (pattern_keys c)" "rev after" c'] by simp_all
  with later have "patternDefinition c' = Some d" by blast
  with Some show ?thesis
    by (simp add: codacy_pattern_map_last find_append_cases)
qed

text \<open>
  C5, amended. In \<^verbatim>\<open>codacy_pattern_map\<close> every key maps to the definition of the last
  catalog pattern that has this key. For a catalog pattern with an identifier, the raw
  and the prefix-stripped identifier are keys of \<^verbatim>\<open>codacy_pattern_map\<close>, and the
  prefix-stripped identifier and its underscore-normalised form are keys of
  \<^verbatim>\<open>pattern_mapping\<close>, the index built before reconciliation. Both keys of
  \<^verbatim>\<open>codacy_pattern_map\<close> map to this pattern's definition when every catalog pattern after
  it that has one of the two keys has the same definition; patterns before it do not
  matter.
\<close>

theorem catalog_keys_of_both_dictionaries:
  "codacy_pattern_map all_patterns k =
     (case find (\<lambda>c. k \<in> set (pattern_keys c)) (rev all_patterns) of
        None \<Rightarrow> None
      | Some c \<Rightarrow> patternDefinition c)
   \<and> (c \<in> set all_patterns \<and> patternDefinition c = Some d \<and> def_id d = Some pid \<longrightarrow>
        codacy_pattern_map all_patterns pid \<noteq> None
        \<and> codacy_pattern_map all_patterns (base_id_of pid) \<noteq> None
        \<and> pattern_mapping all_patterns (base_id_of pid) \<noteq> None
        \<and> pattern_mapping all_patterns (py_replace ''/'' ''_'' (base_id_of pid)) \<noteq> None)
   \<and> (all_patterns = before @ c # after \<and> patternDefinition c = Some d \<and> def_id d = Some pid
       \<and> (\<forall>c' \<in> set after.
             pid \<in> set (pattern_keys c') \<or> base_id_of pid \<in> set (pattern_keys c')
             \<longrightarrow> patternDefinition c' = Some d) \<longrightarrow>
        codacy_pattern_map all_patterns pid = Some d
        \<and> codacy_pattern_map all_patterns (base_id_of pid) = Some d)"
  (is "?exact \<and> (?member \<longrightarrow> ?present) \<and> (?placed \<longrightarrow> ?same)")
proof (rule conjI [OF _ conjI]; (rule impI)?)
  show ?exact
    by (rule codacy_pattern_map_last)
next
  assume a: ?member
  then have "catalog_id c = Some pid"
    by (simp add: catalog_id_def)
  with a foldl_pattern_mapping_keys [of c all_patterns pid Map.empty]
    foldl_codacy_pattern_map_keys [of c all_patterns d pid Map.empty]
  show ?present
    by (simp add: pattern_mapping_def codacy_pattern_map_def)
next
  assume a: ?placed
  then have keys: "pid \<in> set (pattern_keys c)" "base_id_of pid \<in> set (pattern_keys c)"
    using own_keys by blast+
  from a have d: "patternDefinition c = Some d" and all: "all_patterns = before @ c # after"
    by simp_all
  from a have l1: "\<forall>c' \<in> set after. pid \<in> set (pattern_keys c') \<longrightarrow> patternDefinition c' = Some d"
    and l2: "\<forall>c' \<in> set after. base_id_of pid \<in> set (pattern_keys c') \<longrightarrow> patternDefinition c' = Some d"
    by blast+
  from codacy_pattern_map_later [OF d keys(1) l1, of before]
    codacy_pattern_map_later [OF d keys(2) l2, of before] all
  show ?same by simp
qed

text \<open>
  C5 as stated fails twice. The index built before reconciliation has no key for a raw
  prefixed identifier; and in \<^verbatim>\<open>codacy_pattern_map\<close> a later catalog pattern \<^verbatim>\<open>semi\<close>
  takes the stripped key of \<^verbatim>\<open>ESLint8_semi\<close>, so that the two keys of \<^verbatim>\<open>ESLint8_semi\<close>
  map to different definitions.
\<close>

theorem raw_identifier_is_no_key_counterexample:
  "pattern_mapping [catalog_entry ''ESLint8_semi'' (0::nat)] ''ESLint8_semi'' = None
   \<and> codacy_pattern_map [catalog_entry ''ESLint8_semi'' (0::nat), catalog_entry ''semi'' 1] ''ESLint8_semi''
       = Some \<lparr>def_id = Some ''ESLint8_semi'', def_body = 0\<rparr>
   \<and> codacy_pattern_map [catalog_entry ''ESLint8_semi'' (0::nat), catalog_entry ''semi'' 1] ''semi''
       = Some \<lparr>def_id = Some ''semi'', def_body = 1\<rparr>"
  by (simp add: pattern_mapping_def add_pattern_mapping_def codacy_pattern_map_def
      add_codacy_pattern_map_def catalog_entry_def catalog_id_def base_id_of_def startswith_def
      py_replace.simps Let_def)

theorem catalog_keys_of_both_dictionaries_witness:
  "codacy_pattern_map [catalog_entry ''semi'' (1::nat), catalog_entry ''ESLint8_semi'' 0] ''ESLint8_semi''
       = Some \<lparr>def_id = Some ''ESLint8_semi'', def_body = 0\<rparr>
   \<and> codacy_pattern_map [catalog_entry ''semi'' (1::nat), catalog_entry ''ESLint8_semi'' 0] ''semi''
       = Some \<lparr>def_id = Some ''ESLint8_semi'', def_body = 0\<rparr>
   \<and> pattern_mapping [catalog_entry ''semi'' (1::nat), catalog_entry ''ESLint8_semi'' 0] ''semi''
       \<noteq> None"
proof -
  let ?c = "catalog_entry ''ESLint8_semi'' (0::nat)"
  let ?d = "\<lparr>def_id = Some ''ESLint8_semi'', def_body = 0::nat\<rparr>"
  let ?all = "[catalog_entry ''semi'' (1::nat), ?c]"
  have b: "base_id_of ''ESLint8_semi'' = ''semi''"
    by (simp add: base_id_of_def startswith_def)
  have member: "?c \<in> set ?all \<and> patternDefinition ?c = Some ?d \<and> def_id ?d = Some ''ESLint8_semi''"
    by (simp add: catalog_entry_def)
  have placed: "?all = [catalog_entry ''semi'' 1] @ ?c # [] \<and> patternDefinition ?c = Some ?d
       \<and> def_id ?d = Some ''ESLint8_semi''
       \<and> (\<forall>c' \<in> set [].
             ''ESLint8_semi'' \<in> set (pattern_keys c')
             \<or> base_id_of ''ESLint8_semi'' \<in> set (pattern_keys c')
             \<longrightarrow> patternDefinition c' = Some ?d)"
    by (simp add: catalog_entry_def)
  from catalog_keys_of_both_dictionaries
    [of ?all "''semi''" ?c ?d "''ESLint8_semi''" "[catalog_entry ''semi'' 1]" "[]"]
    member placed
  have "codacy_pattern_map ?all ''ESLint8_semi'' = Some ?d
      \<and> codacy_pattern_map ?all (base_id_of ''ESLint8_semi'') = Some ?d
      \<and> pattern_mapping ?all (base_id_of ''ESLint8_semi'') \<noteq> None"
    by blast
  then show ?thesis
    by (simp add: b)
qed

section \<open>Properties of the Batch Synchronizer\<close>

lemma update_disabled:
  "update_coding_standard_tool fuel R t False ps tr = Some (patch_tool R t False tr)"
  by (simp add: update_coding_standard_tool_def)

lemma disable_tool_three:
  "disable_tool fuel R t 3 tr = Some (tr @ [Patch t False []])
   \<or> disable_tool fuel R t 3 tr = Some (tr @ [Patch t False [], Sleep 2, Patch t False []])
   \<or> disable_tool fuel R t 3 tr
       = Some (tr @ [Patch t False [], Sleep 2, Patch t False [], Sleep 2, Patch t False []])"
  by (simp add: numeral_3_eq_3 update_disabled patch_tool_def Let_def split: option.splits)

lemma disable_tool_all_fail:
  assumes "\<forall>h. patch_response R h \<noteq> None"
  shows "disable_tool fuel R t 3 tr
       = Some (tr @ [Patch t False [], Sleep 2, Patch t False [], Sleep 2, Patch t False []])"
  using assms
  by (auto simp add: numeral_3_eq_3 update_disabled patch_tool_def Let_def split: option.splits)

lemma send_batch_all_fail:
  assumes "patch_response R (tr @ [Patch t True b]) = Some (RequestException e1)"
    and "patch_response R (tr @ [Patch t True b, Sleep 2, Patch t True b]) = Some (RequestException e2)"
    and "patch_response R (tr @ [Patch t True b, Sleep 2, Patch t True b, Sleep 2, Patch t True b])
           = Some (RequestException e3)"
  shows "send_batch R t b 3 tr
       = (Inl (RequestException e3),
          tr @ [Patch t True b, Sleep 2, Patch t True b, Sleep 2, Patch t True b])"
  using assms by (simp add: numeral_3_eq_3 Let_def)

lemma disable_tool_exact:
  "disable_tool fuel R t 3 tr =
     Some (if patch_response R (tr @ [Patch t False []]) = None
           then tr @ [Patch t False []]
           else if patch_response R (tr @ [Patch t False [], Sleep 2, Patch t False []]) = None
           then tr @ [Patch t False [], Sleep 2, Patch t False []]
           else tr @ [Patch t False [], Sleep 2, Patch t False [], Sleep 2, Patch t False []])"
  by (simp add: numeral_3_eq_3 update_disabled patch_tool_def Let_def split: option.splits)

lemma disable_loop_all_fail:
  assumes "\<forall>h. patch_response R h \<noteq> None"
  shows "disable_loop fuel R tools tr =
     Some (tr @ concat (map (\<lambda>t. [Patch t False [], Sleep 2, Patch t False [], Sleep 2,
                                    Patch t False []]) tools))"
proof (induction tools arbitrary: tr)
  case Nil
  then show ?case by simp
next
  case (Cons t ts)
  from disable_tool_all_fail [OF assms, of fuel t tr] Cons.IH show ?case
    by simp
qed

lemma disable_loop_attempts:
  "\<exists>ns. length ns = length tools \<and> (\<forall>n \<in> set ns. 1 \<le> n \<and> n \<le> 3)
     \<and> disable_loop fuel R tools tr =
         Some (tr @ concat (map2 (\<lambda>t n. Patch t False []
                                    # concat (replicate (n - 1) [Sleep 2, Patch t False []]))
                              tools ns))"
proof (induction tools arbitrary: tr)
  case Nil
  then show ?case by simp
next
  case (Cons t ts)
  let ?att = "\<lambda>t n. Patch t False [] # concat (replicate (n - 1) [Sleep 2, Patch t False []])"
  have "\<exists>n. 1 \<le> n \<and> n \<le> 3 \<and> disable_tool fuel R t 3 tr = Some (tr @ ?att t n)"
    using disable_tool_three [of fuel R t tr]
  proof (elim disjE)
    assume "disable_tool fuel R t 3 tr = Some (tr @ [Patch t False []])"
    then show ?thesis by (intro exI [of _ 1]) simp
  next
    assume "disable_tool fuel R t 3 tr = Some (tr @ [Patch t False [], Sleep 2, Patch t False []])"
    then show ?thesis by (intro exI [of _ 2]) simp
  next
    assume "disable_tool fuel R t 3 tr
       = Some (tr @ [Patch t False [], Sleep 2, Patch t False [], Sleep 2, Patch t False []])"
    then show ?thesis by (intro exI [of _ 3]) (simp add: numeral_3_eq_3 numeral_2_eq_2)
  qed
  then obtain n where n: "1 \<le> n" "n \<le> 3" "disable_tool fuel R t 3 tr = Some (tr @ ?att t n)"
    by blast
  from Cons.IH [of "tr @ ?att t n"] obtain ns where ns: "length ns = length ts"
      "\<forall>n \<in> set ns. 1 \<le> n \<and> n \<le> 3"
      "disable_loop fuel R ts (tr @ ?att t n) = Some ((tr @ ?att t n) @ concat (map2 ?att ts ns))"
    by blast
  with n show ?case
    by (intro exI [of _ "n # ns"]) simp
qed

text \<open>
  C6, amended. When the tool listing succeeds, \<^verbatim>\<open>disable_all_tools\<close> returns normally
  whatever the update calls answer, and its trace is the listing followed, for every
  tool in order, by one, two or three update calls with \<^verbatim>\<open>enabled=false\<close> and an empty
  pattern list, with a sleep of two seconds between two calls. For one tool the call is
  repeated exactly when it failed and fewer than three calls were made: the loop stops at
  the first call that succeeds and after the third call. Against a service that rejects
  every update call each tool gets three calls and the loop then goes on to the next
  tool; nothing is raised. A batch update, in contrast, raises the third
  \<^verbatim>\<open>RequestException\<close> of three failed attempts.
\<close>

theorem disabling_swallows_exhausted_retries:
  assumes "tools_response R (tr @ [GetTools]) = Inr tools"
  shows "(\<exists>ns. length ns = length tools \<and> (\<forall>n \<in> set ns. 1 \<le> n \<and> n \<le> 3)
            \<and> disable_all_tools fuel R tr =
                Some (Inr (),
                  tr @ GetTools
                    # concat (map2 (\<lambda>t n. Patch t False []
                                # concat (replicate (n - 1) [Sleep 2, Patch t False []]))
                              tools ns)))
     \<and> ((\<forall>h. patch_response R h \<noteq> None) \<longrightarrow>
          disable_all_tools fuel R tr =
            Some (Inr (),
              tr @ GetTools
                # concat (map (\<lambda>t. [Patch t False [], Sleep 2, Patch t False [], Sleep 2,
                                      Patch t False []]) tools)))
     \<and> (\<forall>t tr0.
          disable_tool fuel R t 3 tr0 =
            Some (if patch_response R (tr0 @ [Patch t False []]) = None
                  then tr0 @ [Patch t False []]
                  else if patch_response R (tr0 @ [Patch t False [], Sleep 2, Patch t False []])
                          = None
                  then tr0 @ [Patch t False [], Sleep 2, Patch t False []]
                  else tr0 @ [Patch t False [], Sleep 2, Patch t False [], Sleep 2,
                              Patch t False []]))
     \<and> (\<forall>t b tr0 e1 e2 e3.
          patch_response R (tr0 @ [Patch t True b]) = Some (RequestException e1)
          \<and> patch_response R (tr0 @ [Patch t True b, Sleep 2, Patch t True b])
              = Some (RequestException e2)
          \<and> patch_response R
                (tr0 @ [Patch t True b, Sleep 2, Patch t True b, Sleep 2, Patch t True b])
              = Some (RequestException e3)
          \<longrightarrow> send_batch R t b 3 tr0
              = (Inl (RequestException e3),
                 tr0 @ [Patch t True b, Sleep 2, Patch t True b, Sleep 2, Patch t True b]))"
  (is "?attempts \<and> (?rejecting \<longrightarrow> ?thrice) \<and> ?tool \<and> ?batch")
proof -
  from disable_loop_attempts [of tools fuel R "tr @ [GetTools]"] assms
  have 1: ?attempts
    by (auto simp: disable_all_tools_def Let_def)
  have 2: "?rejecting \<longrightarrow> ?thrice"
    using assms by (simp add: disable_all_tools_def Let_def disable_loop_all_fail)
  have 3: ?tool
    by (intro allI) (rule disable_tool_exact)
  have 5: ?batch
    using send_batch_all_fail by blast
  from 1 2 3 5 show ?thesis
    by (intro conjI)
qed

text \<open>
  C6 as stated fails: against a service that rejects every update call, each of the two
  tools is tried three times and \<^verbatim>\<open>disable_all_tools\<close> returns without an error.
\<close>

theorem exhausted_disable_retries_counterexample:
  "patch_response failing_remote [GetTools, Patch ''tool-1'' False []] = Some (RequestException ''503'')
   \<and> disable_all_tools 0 failing_remote []
     = Some (Inr (),
         [GetTools,
          Patch ''tool-1'' False [], Sleep 2, Patch ''tool-1'' False [], Sleep 2,
          Patch ''tool-1'' False [],
          Patch ''tool-2'' False [], Sleep 2, Patch ''tool-2'' False [], Sleep 2,
          Patch ''tool-2'' False []])"
  by (simp add: disable_all_tools_def failing_remote_def numeral_3_eq_3
      update_coding_standard_tool_def patch_tool_def Let_def)

theorem disabling_swallows_exhausted_retries_witness:
  "tools_response flaky_remote ([] @ [GetTools]) = Inr [''tool-1'', ''tool-2'']
   \<and> disable_all_tools 0 flaky_remote []
      = Some (Inr (),
          [GetTools,
           Patch ''tool-1'' False [], Sleep 2, Patch ''tool-1'' False [],
           Patch ''tool-2'' False [], Sleep 2, Patch ''tool-2'' False []])
   \<and> send_batch failing_remote ''eslint'' [disable_directive ''ESLint8_semi''] 3 []
       = (Inl (RequestException ''503''),
          [Patch ''eslint'' True [disable_directive ''ESLint8_semi''], Sleep 2,
           Patch ''eslint'' True [disable_directive ''ESLint8_semi''], Sleep 2,
           Patch ''eslint'' True [disable_directive ''ESLint8_semi'']])"
proof -
  have h: "tools_response flaky_remote ([] @ [GetTools]) = Inr [''tool-1'', ''tool-2'']"
    by (simp add: flaky_remote_def)
  have h': "tools_response failing_remote ([] @ [GetTools]) = Inr [''tool-1'', ''tool-2'']"
    by (simp add: failing_remote_def)
  have p: "patch_response failing_remote x = Some (RequestException ''503'')" for x
    by (simp add: failing_remote_def)
  have t1: "disable_tool 0 flaky_remote ''tool-1'' 3 [GetTools]
      = Some [GetTools, Patch ''tool-1'' False [], Sleep 2, Patch ''tool-1'' False []]"
    using disabling_swallows_exhausted_retries [OF h, of 0]
    by (simp add: flaky_remote_def)
  have t2: "disable_tool 0 flaky_remote ''tool-2'' 3
        [GetTools, Patch ''tool-1'' False [], Sleep 2, Patch ''tool-1'' False []]
      = Some [GetTools, Patch ''tool-1'' False [], Sleep 2, Patch ''tool-1'' False [],
              Patch ''tool-2'' False [], Sleep 2, Patch ''tool-2'' False []]"
    using disabling_swallows_exhausted_retries [OF h, of 0]
    by (simp add: flaky_remote_def)
  have d: "disable_all_tools 0 flaky_remote []
      = Some (Inr (),
          [GetTools,
           Patch ''tool-1'' False [], Sleep 2, Patch ''tool-1'' False [],
           Patch ''tool-2'' False [], Sleep 2, Patch ''tool-2'' False []])"
    using h t1 t2 by (simp add: disable_all_tools_def)
  from disabling_swallows_exhausted_retries [OF h', of 0] p
  have "send_batch failing_remote ''eslint'' [disable_directive ''ESLint8_semi''] 3 []
       = (Inl (RequestException ''503''),
          [Patch ''eslint'' True [disable_directive ''ESLint8_semi''], Sleep 2,
           Patch ''eslint'' True [disable_directive ''ESLint8_semi''], Sleep 2,
           Patch ''eslint'' True [disable_directive ''ESLint8_semi'']])"
    by simp
  with h d show ?thesis
    by simp
qed

lemma send_batch_trace:
  "\<exists>ext. snd (send_batch R t b n tr) = tr @ ext
         \<and> (\<forall>ev \<in> set ext. ev = Patch t True b \<or> ev = Sleep 2)"
proof (induction n arbitrary: tr)
  case 0
  then show ?case by simp
next
  case (Suc n)
  obtain ext where ext:
      "snd (send_batch R t b n (tr @ [Patch t True b] @ [Sleep 2])) = (tr @ [Patch t True b] @ [Sleep 2]) @ ext"
      "\<forall>ev \<in> set ext. ev = Patch t True b \<or> ev = Sleep 2"
    using Suc.IH by blast
  show ?case
  proof (cases "patch_response R (tr @ [Patch t True b])")
    case None
    then show ?thesis by (simp add: Let_def)
  next
    case (Some e)
    show ?thesis
    proof (cases e)
      case (RequestException msg)
      show ?thesis
      proof (cases "n = 0")
        case True
        with Some RequestException show ?thesis by (simp add: Let_def)
      next
        case False
        with Some RequestException ext show ?thesis
          by (intro exI [of _ "[Patch t True b, Sleep 2] @ ext"]) (simp add: Let_def)
      qed
    next
      case (OtherException msg)
      with Some show ?thesis by (simp add: Let_def)
    qed
  qed
qed

lemma batch_loop_trace:
  "\<exists>ext. snd (batch_loop R t ps bs i tr) = tr @ ext \<and> (\<forall>ev \<in> set ext. batch_event_ok t ps bs ev)"
proof (induction R t ps bs i tr rule: batch_loop.induct)
  case (1 R t ps bs i tr)
  show ?case
  proof (cases "bs = 0 \<or> length ps \<le> i")
    case True
    then show ?thesis by (simp add: batch_loop.simps)
  next
    case False
    let ?b = "take bs (drop i ps)"
    obtain r tr1 where sb: "send_batch R t ?b 3 tr = (r, tr1)"
      by (cases "send_batch R t ?b 3 tr")
    from send_batch_trace [of R t ?b 3 tr] sb obtain e1 where
      e1: "tr1 = tr @ e1" "\<forall>ev \<in> set e1. ev = Patch t True ?b \<or> ev = Sleep 2"
      by auto
    from False have "i < length ps" by simp
    with e1(2) have ok1: "\<forall>ev \<in> set e1. batch_event_ok t ps bs ev"
      unfolding batch_event_ok_def by blast
    show ?thesis
    proof (cases r)
      case (Inl e)
      with False sb e1(1) ok1 show ?thesis
        by (simp add: batch_loop.simps [of R t ps bs i tr])
    next
      case (Inr u)
      from "1.IH" [OF False refl sb [symmetric] Inr]
      obtain e2 where e2: "snd (batch_loop R t ps bs (i + bs) tr1) = tr1 @ e2"
          "\<forall>ev \<in> set e2. batch_event_ok t ps bs ev"
        by blast
      with Inr False sb e1(1) ok1 show ?thesis
        by (intro exI [of _ "e1 @ e2"]) (auto simp: batch_loop.simps [of R t ps bs i tr])
    qed
  qed
qed

lemma send_batch_accepted:
  "patch_response R (tr @ [Patch t True b]) = None \<Longrightarrow>
     send_batch R t b (Suc n) tr = (Inr (), tr @ [Patch t True b])"
  by (simp add: Let_def)

lemma batch_loop_accepted:
  assumes "\<forall>h. patch_response R h = None" and "0 < bs"
  shows "\<exists>batches. batch_loop R t ps bs i tr = (Inr (), tr @ map (Patch t True) batches)
           \<and> concat batches = drop i ps
           \<and> (\<forall>b \<in> set batches. b \<noteq> [] \<and> length b \<le> bs)"
  using assms
proof (induction R t ps bs i tr rule: batch_loop.induct)
  case (1 R t ps bs i tr)
  show ?case
  proof (cases "length ps \<le> i")
    case True
    then show ?thesis
      by (intro exI [of _ "[]"]) (simp add: batch_loop.simps)
  next
    case False
    let ?b = "take bs (drop i ps)"
    let ?tr1 = "tr @ [Patch t True ?b]"
    from "1.prems" have sb: "send_batch R t ?b 3 tr = (Inr (), ?tr1)"
      by (simp add: numeral_3_eq_3 send_batch_accepted)
    from False "1.prems" have cond: "\<not> (bs = 0 \<or> length ps \<le> i)"
      by simp
    from "1.IH" [OF cond refl sb [symmetric] refl "1.prems"]
    obtain bt where bt: "batch_loop R t ps bs (i + bs) ?tr1 = (Inr (), ?tr1 @ map (Patch t True) bt)"
        "concat bt = drop (i + bs) ps" "\<forall>b \<in> set bt. b \<noteq> [] \<and> length b \<le> bs"
      by blast
    have "?b @ drop (i + bs) ps = drop i ps"
      using append_take_drop_id [of bs "drop i ps"] by (simp add: add.commute)
    moreover from False "1.prems" have "?b \<noteq> []" "length ?b \<le> bs"
      by simp_all
    ultimately show ?thesis
      using bt sb cond
      by (intro exI [of _ "?b # bt"]) (simp add: batch_loop.simps [of R t ps bs i tr])
  qed
qed

lemma batch_loop_2500:
  assumes "\<forall>h. patch_response R h = None" and "length ps = 2500"
  shows "batch_loop R t ps 1000 0 tr
       = (Inr (), tr @ [Patch t True (take 1000 ps), Patch t True (take 1000 (drop 1000 ps)),
                        Patch t True (drop 2000 ps)])"
proof -
  let ?t1 = "tr @ [Patch t True (take 1000 ps)]"
  let ?t2 = "?t1 @ [Patch t True (take 1000 (drop 1000 ps))]"
  let ?t3 = "?t2 @ [Patch t True (drop 2000 ps)]"
  from assms have s: "send_batch R t b 3 tr' = (Inr (), tr' @ [Patch t True b])" for b tr'
    by (simp add: numeral_3_eq_3 send_batch_accepted)
  have l3: "batch_loop R t ps 1000 3000 ?t3 = (Inr (), ?t3)"
    using assms(2) by (simp add: batch_loop.simps [of R t ps 1000 3000])
  have "take 1000 (drop 2000 ps) = drop 2000 ps"
    using assms(2) by simp
  then have l2: "batch_loop R t ps 1000 2000 ?t2 = (Inr (), ?t3)"
    using assms(2) l3 by (simp add: batch_loop.simps [of R t ps 1000 2000] s)
  have l1: "batch_loop R t ps 1000 1000 ?t1 = (Inr (), ?t3)"
    using assms(2) l2 by (simp add: batch_loop.simps [of R t ps 1000 1000] s)
  show ?thesis
    using assms(2) l1 by (simp add: batch_loop.simps [of R t ps 1000 0] s)
qed

text \<open>
  C7. Whatever the service answers and whatever the batch size, every update call of
  \<^verbatim>\<open>batch_update_patterns\<close> carries a non-empty slice of the pattern list that is no
  longer than the batch size (for a batch size of 0 or below no call is made). With a
  positive batch size and a service that accepts every call, the calls carry consecutive
  batches whose concatenation is the pattern list, one call for each batch. For 2500
  directives and a batch size of 1000 these are exactly three calls, of 1000, 1000 and
  500 directives in this order.
\<close>

theorem batches_never_exceed_batch_size:
  "(\<exists>ext. snd (batch_update_patterns R t ps bs tr) = tr @ ext
      \<and> (\<forall>ev \<in> set ext.
            ev = Sleep 2
            \<or> (\<exists>b. ev = Patch t True b \<and> b \<noteq> [] \<and> int (length b) \<le> bs
                   \<and> (\<exists>k. b = take (nat bs) (drop k ps)))))
   \<and> (0 < bs \<and> (\<forall>h. patch_response R h = None) \<longrightarrow>
        (\<exists>batches. batch_update_patterns R t ps bs tr = (Inr (), tr @ map (Patch t True) batches)
           \<and> concat batches = ps
           \<and> (\<forall>b \<in> set batches. b \<noteq> [] \<and> int (length b) \<le> bs)))
   \<and> (length ps = 2500 \<and> (\<forall>h. patch_response R h = None) \<longrightarrow>
        batch_update_patterns R t ps 1000 tr
          = (Inr (), tr @ [Patch t True (take 1000 ps), Patch t True (take 1000 (drop 1000 ps)),
                           Patch t True (drop 2000 ps)])
        \<and> length (take 1000 ps) = 1000 \<and> length (take 1000 (drop 1000 ps)) = 1000
        \<and> length (drop 2000 ps) = 500)"
  (is "?bounded \<and> (?accepting \<longrightarrow> ?split) \<and> (?given \<longrightarrow> ?three)")
proof (rule conjI [OF _ conjI]; (rule impI)?)
  show "\<exists>ext. snd (batch_update_patterns R t ps bs tr) = tr @ ext
      \<and> (\<forall>ev \<in> set ext.
            ev = Sleep 2
            \<or> (\<exists>b. ev = Patch t True b \<and> b \<noteq> [] \<and> int (length b) \<le> bs
                   \<and> (\<exists>k. b = take (nat bs) (drop k ps))))"
  proof (cases "0 < bs")
    case False
    then show ?thesis
      by (intro exI [of _ "[]"]) (simp add: batch_update_patterns_def)
  next
    case True
    from batch_loop_trace [of R t ps "nat bs" 0 tr] obtain ext where
      ext: "snd (batch_loop R t ps (nat bs) 0 tr) = tr @ ext"
        "\<forall>ev \<in> set ext. batch_event_ok t ps (nat bs) ev"
      by blast
    have "ev = Sleep 2
            \<or> (\<exists>b. ev = Patch t True b \<and> b \<noteq> [] \<and> int (length b) \<le> bs
                   \<and> (\<exists>k. b = take (nat bs) (drop k ps)))"
      if "ev \<in> set ext" for ev
    proof -
      from ext(2) that have "batch_event_ok t ps (nat bs) ev" by blast
      then consider "ev = Sleep 2"
        | k where "k < length ps" "ev = Patch t True (take (nat bs) (drop k ps))"
        unfolding batch_event_ok_def by blast
      then show ?thesis
      proof cases
        case 1
        then show ?thesis by simp
      next
        case 2
        with True have "take (nat bs) (drop k ps) \<noteq> []"
          and "int (length (take (nat bs) (drop k ps))) \<le> bs"
          by simp_all
        with 2 show ?thesis by blast
      qed
    qed
    with ext(1) True show ?thesis
      by (intro exI [of _ ext]) (simp add: batch_update_patterns_def)
  qed
next
  assume a: ?accepting
  then have "0 < nat bs" by simp
  from batch_loop_accepted [OF conjunct2 [OF a] this, of t ps 0 tr]
  obtain batches where "batch_loop R t ps (nat bs) 0 tr = (Inr (), tr @ map (Patch t True) batches)"
      "concat batches = ps" "\<forall>b \<in> set batches. b \<noteq> [] \<and> length b \<le> nat bs"
    by auto
  with a show "\<exists>batches. batch_update_patterns R t ps bs tr = (Inr (), tr @ map (Patch t True) batches)
           \<and> concat batches = ps
           \<and> (\<forall>b \<in> set batches. b \<noteq> [] \<and> int (length b) \<le> bs)"
    by (intro exI [of _ batches]) (auto simp: batch_update_patterns_def)
next
  assume a: ?given
  then show ?three
    using batch_loop_2500 [of R ps t tr] by (simp add: batch_update_patterns_def)
qed

theorem batches_never_exceed_batch_size_witness:
  "batch_update_patterns accepting_remote ''eslint''
      (replicate 2500 (disable_directive ''ESLint8_semi'')) 1000 []
     = (Inr (), [Patch ''eslint'' True (replicate 1000 (disable_directive ''ESLint8_semi'')),
                 Patch ''eslint'' True (replicate 1000 (disable_directive ''ESLint8_semi'')),
                 Patch ''eslint'' True (replicate 500 (disable_directive ''ESLint8_semi''))])
   \<and> length (replicate 2500 (disable_directive ''ESLint8_semi'')) = 2500"
proof -
  have p: "\<forall>h. patch_response accepting_remote h = None"
    by (simp add: accepting_remote_def)
  have l: "length (replicate 2500 (disable_directive ''ESLint8_semi'')) = 2500"
    by simp
  from batches_never_exceed_batch_size
    [of accepting_remote "''eslint''" "replicate 2500 (disable_directive ''ESLint8_semi'')" 1000 "[]"]
    p l
  show ?thesis by simp
qed

lemma list_tool_patterns_loop_drains:
  "serves R tool tr cursor pages \<Longrightarrow> length pages \<le> fuel \<Longrightarrow>
     list_tool_patterns_loop fuel R tool cursor acc tr
       = Some (Inr (acc @ concat (map page_items pages)),
               tr @ map (GetPatterns tool) (cursor # map page_cursor (butlast pages)))"
proof (induction pages arbitrary: fuel cursor acc tr)
  case Nil
  then show ?case by simp
next
  case (Cons p ps)
  from Cons.prems(2) obtain f where f: "fuel = Suc f" "length ps \<le> f"
    by (cases fuel) auto
  from Cons.prems(1) have resp: "patterns_response R (tr @ [GetPatterns tool cursor]) = Inr p"
    by simp
  show ?case
  proof (cases "ps = []")
    case True
    with Cons.prems(1) resp f show ?thesis
      by (simp add: Let_def page_items_def split: option.splits)
  next
    case False
    with Cons.prems(1) have more: "cursor_truthy (page_cursor p)"
        and rest: "serves R tool (tr @ [GetPatterns tool cursor]) (page_cursor p) ps"
      by simp_all
    from Cons.IH [OF rest f(2)] False resp more f(1) show ?thesis
      by (simp add: Let_def page_items_def split: option.splits)
  qed
qed

lemma list_tool_patterns_loop_endless:
  assumes "\<forall>h. \<exists>p. patterns_response R h = Inr p \<and> cursor_truthy (page_cursor p)"
  shows "list_tool_patterns_loop fuel R tool cursor acc tr = None"
proof (induction fuel arbitrary: cursor acc tr)
  case 0
  then show ?case by simp
next
  case (Suc fuel)
  from assms obtain p where "patterns_response R (tr @ [GetPatterns tool cursor]) = Inr p"
      "cursor_truthy (page_cursor p)"
    by blast
  with Suc.IH show ?case
    by (simp add: Let_def)
qed

text \<open>
  C8. When the service serves a catalog as pages linked by cursors, the listing, given
  fuel for one request for each page, returns the concatenation of all pages and has
  sent exactly one request for each page: the first without a cursor, each following one
  with the cursor of the page before. For three pages of 100, 100 and 40 patterns it
  returns 240 patterns after 3 requests. The listing stops only when no cursor is
  returned: against a service that returns a cursor with every page it does not return,
  whatever the fuel.
\<close>

theorem listing_drains_pagination:
  "(serves R tool tr None pages \<and> length pages \<le> fuel \<longrightarrow>
      list_tool_patterns fuel R tool tr
        = Some (Inr (concat (map page_items pages)),
                tr @ map (GetPatterns tool) (None # map page_cursor (butlast pages))))
   \<and> (serves R tool tr None [p1, p2, p3] \<and> 3 \<le> fuel
       \<and> length (page_items p1) = 100 \<and> length (page_items p2) = 100
       \<and> length (page_items p3) = 40 \<longrightarrow>
      (\<exists>items calls. list_tool_patterns fuel R tool tr = Some (Inr items, tr @ calls)
          \<and> items = page_items p1 @ page_items p2 @ page_items p3
          \<and> length items = 240 \<and> length calls = 3))
   \<and> ((\<forall>h. \<exists>p. patterns_response R h = Inr p \<and> cursor_truthy (page_cursor p)) \<longrightarrow>
      list_tool_patterns fuel R tool tr = None)"
proof (intro conjI impI)
  assume "serves R tool tr None pages \<and> length pages \<le> fuel"
  then show "list_tool_patterns fuel R tool tr
        = Some (Inr (concat (map page_items pages)),
                tr @ map (GetPatterns tool) (None # map page_cursor (butlast pages)))"
    using list_tool_patterns_loop_drains [of R tool tr None pages fuel "[]"]
    by (simp add: list_tool_patterns_def)
next
  assume a: "serves R tool tr None [p1, p2, p3] \<and> 3 \<le> fuel
       \<and> length (page_items p1) = 100 \<and> length (page_items p2) = 100
       \<and> length (page_items p3) = 40"
  then have "list_tool_patterns fuel R tool tr
        = Some (Inr (concat (map page_items [p1, p2, p3])),
                tr @ map (GetPatterns tool) (None # map page_cursor (butlast [p1, p2, p3])))"
    using list_tool_patterns_loop_drains [of R tool tr None "[p1, p2, p3]" fuel "[]"]
    by (simp add: list_tool_patterns_def)
  with a show "\<exists>items calls. list_tool_patterns fuel R tool tr = Some (Inr items, tr @ calls)
          \<and> items = page_items p1 @ page_items p2 @ page_items p3
          \<and> length items = 240 \<and> length calls = 3"
    by simp
next
  assume "\<forall>h. \<exists>p. patterns_response R h = Inr p \<and> cursor_truthy (page_cursor p)"
  then show "list_tool_patterns fuel R tool tr = None"
    by (simp add: list_tool_patterns_def list_tool_patterns_loop_endless)
qed

theorem listing_drains_pagination_witness:
  "serves three_page_remote ''eslint'' [] None
     [\<lparr>page_data = Some (replicate 100 (catalog_entry ''ESLint8_a'' ())), page_cursor = Some ''c1''\<rparr>,
      \<lparr>page_data = Some (replicate 100 (catalog_entry ''ESLint8_b'' ())), page_cursor = Some ''c2''\<rparr>,
      \<lparr>page_data = Some (replicate 40 (catalog_entry ''ESLint8_c'' ())), page_cursor = None\<rparr>]
   \<and> list_tool_patterns 3 three_page_remote ''eslint'' []
     = Some (Inr (replicate 100 (catalog_entry ''ESLint8_a'' ())
                  @ replicate 100 (catalog_entry ''ESLint8_b'' ())
                  @ replicate 40 (catalog_entry ''ESLint8_c'' ())),
             [GetPatterns ''eslint'' None, GetPatterns ''eslint'' (Some ''c1''),
              GetPatterns ''eslint'' (Some ''c2'')])
   \<and> length (replicate 100 (catalog_entry ''ESLint8_a'' ())
                  @ replicate 100 (catalog_entry ''ESLint8_b'' ())
                  @ replicate 40 (catalog_entry ''ESLint8_c'' ())) = 240"
proof -
  let ?p1 = "\<lparr>page_data = Some (replicate 100 (catalog_entry ''ESLint8_a'' ())), page_cursor = Some ''c1''\<rparr>"
  let ?p2 = "\<lparr>page_data = Some (replicate 100 (catalog_entry ''ESLint8_b'' ())), page_cursor = Some ''c2''\<rparr>"
  let ?p3 = "\<lparr>page_data = Some (replicate 40 (catalog_entry ''ESLint8_c'' ())), page_cursor = None\<rparr>"
  have s: "serves three_page_remote ''eslint'' [] None [?p1, ?p2, ?p3]"
    by (simp add: three_page_remote_def)
  from listing_drains_pagination [of three_page_remote "''eslint''" "[]" "[?p1, ?p2, ?p3]" 3] s
  show ?thesis
    by (simp add: page_items_def)
qed

section \<open>Properties of the Config Text Normalizer\<close>

text \<open>
  C9. Each spelling of the configuration whose \<^verbatim>\<open>extends\<close> array has the entries
  \<^verbatim>\<open>eslint:recommended\<close>, \<^verbatim>\<open>plugin:react/recommended\<close> and \<^verbatim>\<open>prettier\<close> on lines of their own
  is normalised to the same text, in which the \<^verbatim>\<open>"extends"\<close> array holds exactly these
  three entries, each in double quotes, in their order; so is the single-quoted spelling
  behind \<^verbatim>\<open>module.exports =\<close>, which \<^verbatim>\<open>parse_eslint_config\<close> removes first. The lines that
  the post-processor makes of the array's text after key quoting are the three quoted
  entries.
\<close>

theorem extends_entries_survive_normalization:
  "clean_js_object extends_single_quoted = extends_normalized
   \<and> clean_js_object extends_double_quoted = extends_normalized
   \<and> clean_js_object extends_unquoted = extends_normalized
   \<and> clean_js_object (py_replace ''module.exports ='' [] (''module.exports = '' @ extends_single_quoted))
       = extends_normalized
   \<and> processed_lines
         (newline @
          ''    '' @ dquote @ dquote @ ''eslint'' @ dquote @ '':recommended'' @ dquote @ '','' @ newline @
          ''    '' @ dquote @ dquote @ ''plugin'' @ dquote @ '':react/recommended'' @ dquote @ '',''
            @ newline @
          ''    '' @ dquote @ ''prettier'' @ dquote @ newline @ ''  '')
       = [quoted ''eslint:recommended'', quoted ''plugin:react/recommended'', quoted ''prettier'']"
proof -
  have a: "clean_js_object extends_single_quoted = extends_normalized"
    by code_simp
  have b: "clean_js_object extends_double_quoted = extends_normalized"
    by code_simp
  have c: "clean_js_object extends_unquoted = extends_normalized"
    by code_simp
  have d: "clean_js_object (py_replace ''module.exports ='' [] (''module.exports = '' @ extends_single_quoted))
       = extends_normalized"
    by code_simp
  have e: "processed_lines
         (newline @
          ''    '' @ dquote @ dquote @ ''eslint'' @ dquote @ '':recommended'' @ dquote @ '','' @ newline @
          ''    '' @ dquote @ dquote @ ''plugin'' @ dquote @ '':react/recommended'' @ dquote @ '',''
            @ newline @
          ''    '' @ dquote @ ''prettier'' @ dquote @ newline @ ''  '')
       = [quoted ''eslint:recommended'', quoted ''plugin:react/recommended'', quoted ''prettier'']"
    by code_simp
  from a b c d e show ?thesis
    by (intro conjI)
qed

end
